theory Spec2Isabelle
  imports Complex_Main "HOL-Library.Multiset"
begin

section \<open>Data model\<close>

text \<open>
  The client component keeps a list of \<^verbatim>\<open>Transaction\<close> objects (the state variable
  \<^verbatim>\<open>transactions\<close>, written \<open>txs\<close> below) and derives its aggregates from it. A transaction's
  \<^verbatim>\<open>amount\<close> is a JavaScript number, the type \<open>number\<close> below. The monthly and
  the annual aggregation only ever use \<open>0\<close>, \<open>+\<close> and \<open>-\<close> on amounts, so their
  embedding is polymorphic in the amount type: what is proved for every type with
  these three operations holds for JavaScript numbers, whatever the arithmetic does
  (rounding included). The category totals also test a number for truth, and are
  embedded for JavaScript numbers only. The \<^verbatim>\<open>type\<close>
  field is declared as the union \<^verbatim>\<open>"income" | "expense"\<close>, which is a string at
  run time and is compared with \<^verbatim>\<open>===\<close>; it is modelled as a string. The field
  \<^verbatim>\<open>_id\<close> is written \<open>tx_id\<close>.
\<close>

record 'a transaction =
  tx_id :: string
  description :: string
  amount :: 'a
  type :: string
  category :: string
  date :: string

text \<open>
  The annual summary has the fields \<^verbatim>\<open>income\<close>, \<^verbatim>\<open>expenses\<close> and
  \<^verbatim>\<open>balance\<close>; an entry of \<^verbatim>\<open>MonthlyData\<close> has the same three and the list
  of the month's transactions.
\<close>

record 'a totals =
  income :: 'a
  expenses :: 'a
  balance :: 'a

record 'a bucket = "'a totals" +
  transactions :: "'a transaction list"

subsection \<open>JavaScript numbers\<close>

text \<open>
  A JavaScript number is an IEEE 754 double. The finite doubles are modelled by their
  rational values, next to the two infinities and \<^verbatim>\<open>NaN\<close>. The sum of two finite
  doubles is the exact sum rounded to the nearest double, ties to the even
  significand: for \<open>x \<noteq> 0\<close> the unit in the last place is \<open>2\<^sup>e\<close> with
  \<open>e = max (\<lfloor>log\<^sub>2 |x|\<rfloor> - 52) (-1074)\<close>, and a result of magnitude
  \<open>2\<^sup>1\<^sup>0\<^sup>2\<^sup>4\<close> or more overflows to the infinity of its sign. An infinity
  absorbs every finite number, the sum of the two infinities is \<^verbatim>\<open>NaN\<close>, and
  \<^verbatim>\<open>NaN\<close> absorbs everything. Negative zero is not distinguished from zero.
\<close>

function bit_length :: "int \<Rightarrow> int" where
  "bit_length n = (if n \<le> 0 then 0 else 1 + bit_length (n div 2))"
  by pat_completeness auto
termination
  by (relation "measure nat") auto

declare bit_length.simps [simp del]

definition pow2 :: "int \<Rightarrow> rat" where
  "pow2 e = (if 0 \<le> e then 2 ^ nat e else 1 / 2 ^ nat (- e))"

definition floor_log2 :: "rat \<Rightarrow> int" where
  "floor_log2 x =
     (let (n, d) = quotient_of x;
          e = bit_length n - bit_length d
      in if pow2 e \<le> x then e else e - 1)"

definition round_ties_even :: "rat \<Rightarrow> int" where
  "round_ties_even x =
     (let n = \<lfloor>x\<rfloor>; r = x - of_int n
      in if r < 1 / 2 then n
         else if 1 / 2 < r then n + 1
         else if even n then n else n + 1)"

datatype number = Finite rat | PosInfinity | NegInfinity | NaN

definition round_double :: "rat \<Rightarrow> number" where
  "round_double x =
     (if x = 0 then Finite 0
      else let e = max (floor_log2 \<bar>x\<bar> - 52) (- 1074);
               m = round_ties_even (x / pow2 e)
           in if 971 < e \<or> (e = 971 \<and> 2 ^ 53 \<le> \<bar>m\<bar>)
              then (if 0 < x then PosInfinity else NegInfinity)
              else Finite (of_int m * pow2 e))"

instantiation number :: "{zero, plus, minus}"
begin

definition zero_number :: number where
  "zero_number = Finite 0"

fun plus_number :: "number \<Rightarrow> number \<Rightarrow> number" where
  "plus_number (Finite x) (Finite y) = round_double (x + y)"
| "plus_number NaN y = NaN"
| "plus_number x NaN = NaN"
| "plus_number PosInfinity NegInfinity = NaN"
| "plus_number NegInfinity PosInfinity = NaN"
| "plus_number PosInfinity y = PosInfinity"
| "plus_number x PosInfinity = PosInfinity"
| "plus_number NegInfinity y = NegInfinity"
| "plus_number x NegInfinity = NegInfinity"

fun minus_number :: "number \<Rightarrow> number \<Rightarrow> number" where
  "minus_number (Finite x) (Finite y) = round_double (x - y)"
| "minus_number NaN y = NaN"
| "minus_number x NaN = NaN"
| "minus_number PosInfinity PosInfinity = NaN"
| "minus_number NegInfinity NegInfinity = NaN"
| "minus_number PosInfinity y = PosInfinity"
| "minus_number x PosInfinity = NegInfinity"
| "minus_number NegInfinity y = NegInfinity"
| "minus_number x NegInfinity = PosInfinity"

instance ..

end

subsection \<open>Objects used as dictionaries\<close>

text \<open>
  \<^verbatim>\<open>monthlyData\<close> and \<^verbatim>\<open>categories\<close> are object literals \<^verbatim>\<open>{}\<close> indexed by
  strings. An object is modelled by the list of its own properties in creation order:
  \<open>map_of\<close> reads an own property (\<open>None\<close> when there is none), \<open>assign\<close>
  creates or overwrites an own property: it overwrites an existing property in place
  and appends a new one. The keys of \<^verbatim>\<open>monthlyData\<close> are read through its own
  properties only; for \<^verbatim>\<open>categories\<close>, whose keys are the free text of the
  category field, the members inherited from \<^verbatim>\<open>Object.prototype\<close> are modelled
  with the category totals below.
\<close>

type_synonym 'v object = "(string \<times> 'v) list"

fun assign :: "string \<Rightarrow> 'v \<Rightarrow> 'v object \<Rightarrow> 'v object" where
  "assign k v [] = [(k, v)]"
| "assign k v (p # ps) = (if fst p = k then (k, v) # ps else p # assign k v ps)"

text \<open>
  \<^verbatim>\<open>Object.entries\<close> lists the properties whose key is an array index (a canonical
  decimal numeral below \<open>2\<^sup>3\<^sup>2 - 1\<close>) first, in ascending numeric order, and then
  all other properties in creation order.
\<close>

definition digit :: "char \<Rightarrow> bool" where
  "digit c = (c \<in> set ''0123456789'')"

definition decimal :: "string \<Rightarrow> nat" where
  "decimal s = foldl (\<lambda>n c. 10 * n + (of_char c - 48)) 0 s"

definition array_index :: "string \<Rightarrow> nat option" where
  "array_index s =
     (if s \<noteq> [] \<and> list_all digit s \<and> (s = ''0'' \<or> take 1 s \<noteq> ''0'') \<and> decimal s < 4294967295
      then Some (decimal s) else None)"

definition Object_entries :: "'v object \<Rightarrow> (string \<times> 'v) list" where
  "Object_entries obj =
     sort_key (\<lambda>p. case array_index (fst p) of Some i \<Rightarrow> i | None \<Rightarrow> 0)
       (filter (\<lambda>p. array_index (fst p) \<noteq> None) obj)
     @ filter (\<lambda>p. array_index (fst p) = None) obj"

section \<open>Aggregation engine\<close>

subsection \<open>\<^verbatim>\<open>calculateMonthlyData\<close>\<close>

text \<open>
  The body of the \<^verbatim>\<open>forEach\<close> callback, for one transaction: the key
  \<^verbatim>\<open>monthYear\<close> is \<^verbatim>\<open>transaction.date.substring(0, 7)\<close>; a missing bucket is created with zero
  totals; the amount goes to \<^verbatim>\<open>income\<close> when the type is \<^verbatim>\<open>"income"\<close> and to
  \<^verbatim>\<open>expenses\<close> otherwise; the balance is recomputed; the transaction is pushed.
\<close>

definition monthYear :: "'a transaction \<Rightarrow> string" where
  "monthYear transaction = take 7 (date transaction)"

definition record_transaction :: "'a::{plus,minus} transaction \<Rightarrow> 'a bucket \<Rightarrow> 'a bucket" where
  "record_transaction transaction b =
     (let b1 = (if type transaction = ''income''
                then b\<lparr>income := income b + amount transaction\<rparr>
                else b\<lparr>expenses := expenses b + amount transaction\<rparr>);
          b2 = b1\<lparr>balance := income b1 - expenses b1\<rparr>
      in b2\<lparr>transactions := transactions b2 @ [transaction]\<rparr>)"

definition addToMonth ::
  "'a::{zero,plus,minus} bucket object \<Rightarrow> 'a transaction \<Rightarrow> 'a bucket object" where
  "addToMonth monthlyData transaction =
     (let monthlyData1 =
            (if map_of monthlyData (monthYear transaction) = None
             then assign (monthYear transaction)
                    \<lparr>income = 0, expenses = 0, balance = 0, transactions = []\<rparr> monthlyData
             else monthlyData)
      in case map_of monthlyData1 (monthYear transaction) of
           None \<Rightarrow> monthlyData1
         | Some b \<Rightarrow> assign (monthYear transaction) (record_transaction transaction b) monthlyData1)"

definition calculateMonthlyData ::
  "'a::{zero,plus,minus} transaction list \<Rightarrow> 'a bucket object" where
  "calculateMonthlyData txs = foldl addToMonth [] txs"

subsection \<open>\<^verbatim>\<open>calculateAnnualData\<close>\<close>

definition addToAnnual :: "'a::plus totals \<Rightarrow> 'a transaction \<Rightarrow> 'a totals" where
  "addToAnnual annualData transaction =
     (if type transaction = ''income''
      then annualData\<lparr>income := income annualData + amount transaction\<rparr>
      else annualData\<lparr>expenses := expenses annualData + amount transaction\<rparr>)"

definition calculateAnnualData :: "'a::{zero,plus,minus} transaction list \<Rightarrow> 'a totals" where
  "calculateAnnualData txs =
     (let annualData = foldl addToAnnual \<lparr>income = 0, expenses = 0, balance = 0\<rparr> txs
      in annualData\<lparr>balance := income annualData - expenses annualData\<rparr>)"

subsection \<open>\<^verbatim>\<open>expensesByCategory\<close>\<close>

text \<open>
  \<^verbatim>\<open>categories\<close> is an object literal \<^verbatim>\<open>{}\<close>, declared to hold numbers, and is
  indexed by the category of a transaction, which is free text. Reading
  \<^verbatim>\<open>categories[c]\<close> gives the own property \<open>c\<close> when there is one, the member of
  \<^verbatim>\<open>Object.prototype\<close> named \<open>c\<close> when there is one (eleven functions, and the
  accessor \<^verbatim>\<open>__proto__\<close>, which gives \<^verbatim>\<open>Object.prototype\<close> itself), and
  \<^verbatim>\<open>undefined\<close> otherwise. So the values that arise are numbers, objects
  (functions included), \<^verbatim>\<open>undefined\<close> and, from \<^verbatim>\<open>+\<close> on an object, strings.
  The characters of these strings are the runtime's rendering of a function and of
  numbers and are not modelled: \<open>Text\<close> stands for a string that is a
  concatenation ending in the digits of a number, hence not empty.
\<close>

datatype jsvalue = Undefined | Num number | Text | Object

definition Object_prototype :: "string list" where
  "Object_prototype =
     [''constructor'', ''__defineGetter__'', ''__defineSetter__'', ''hasOwnProperty'',
      ''__lookupGetter__'', ''__lookupSetter__'', ''isPrototypeOf'', ''propertyIsEnumerable'',
      ''toString'', ''valueOf'', ''__proto__'', ''toLocaleString'']"

text \<open>
  \<open>get_property obj k\<close> is \<^verbatim>\<open>obj[k]\<close>. \<open>or_zero v\<close> is \<^verbatim>\<open>v || 0\<close>: the
  falsy values are \<^verbatim>\<open>undefined\<close>, \<open>0\<close>, \<^verbatim>\<open>NaN\<close> and the empty string.
  \<open>plus_value v a\<close> is \<^verbatim>\<open>v + a\<close> for a number \<open>a\<close>: the sum of two numbers, the
  concatenation of two strings when \<open>v\<close> is a string or an object, and
  \<^verbatim>\<open>NaN\<close> for \<^verbatim>\<open>undefined\<close>. \<open>set_property k v obj\<close> is \<^verbatim>\<open>obj[k] = v\<close>
  for a number or a string \<open>v\<close>: the setter of \<^verbatim>\<open>__proto__\<close> ignores such a
  value, and every other key gets an own property (the functions of
  \<^verbatim>\<open>Object.prototype\<close> are writable, so the own property shadows them).
\<close>

definition get_property :: "jsvalue object \<Rightarrow> string \<Rightarrow> jsvalue" where
  "get_property obj k =
     (case map_of obj k of
        Some v \<Rightarrow> v
      | None \<Rightarrow> if k \<in> set Object_prototype then Object else Undefined)"

definition or_zero :: "jsvalue \<Rightarrow> jsvalue" where
  "or_zero v =
     (case v of
        Undefined \<Rightarrow> Num 0
      | Num x \<Rightarrow> if x = 0 \<or> x = NaN then Num 0 else Num x
      | Text \<Rightarrow> Text
      | Object \<Rightarrow> Object)"

definition plus_value :: "jsvalue \<Rightarrow> number \<Rightarrow> jsvalue" where
  "plus_value v a =
     (case v of
        Undefined \<Rightarrow> Num NaN
      | Num x \<Rightarrow> Num (x + a)
      | Text \<Rightarrow> Text
      | Object \<Rightarrow> Text)"

definition set_property :: "string \<Rightarrow> jsvalue \<Rightarrow> jsvalue object \<Rightarrow> jsvalue object" where
  "set_property k v obj = (if k = ''__proto__'' then obj else assign k v obj)"

text \<open>
  The body of the \<^verbatim>\<open>forEach\<close> callback, and the result: the list of
  \<^verbatim>\<open>{ name, value }\<close> objects, modelled as pairs.
\<close>

definition addToCategory :: "jsvalue object \<Rightarrow> number transaction \<Rightarrow> jsvalue object" where
  "addToCategory categories transaction =
     (if type transaction = ''expense''
      then set_property (category transaction)
             (plus_value (or_zero (get_property categories (category transaction)))
                (amount transaction))
             categories
      else categories)"

definition expensesByCategory :: "number transaction list \<Rightarrow> (string \<times> jsvalue) list" where
  "expensesByCategory txs =
     map (\<lambda>(name, value). (name, value)) (Object_entries (foldl addToCategory [] txs))"

subsection \<open>\<^verbatim>\<open>monthlyChartData\<close>\<close>

text \<open>
  Every entry of \<^verbatim>\<open>Object.entries(calculateMonthlyData)\<close> becomes a point with the
  three totals and a \<^verbatim>\<open>name\<close>, and the points are sorted with the comparator
  \<^verbatim>\<open>new Date(a.name).getTime() - new Date(b.name).getTime()\<close>. Formatting and
  parsing dates is the work of the JavaScript runtime and depends on its locale and
  time zone, so both are parameters: \<open>toLocaleString month\<close> stands for
  \<^verbatim>\<open>new Date(month).toLocaleString("default", { month: "short", year: "numeric" })\<close>
  and \<open>getTime name\<close> for \<^verbatim>\<open>new Date(name).getTime()\<close>, with \<open>None\<close> for
  \<^verbatim>\<open>NaN\<close> (an invalid date). Time values are integers of magnitude at most
  \<open>8.64 \<times> 10\<^sup>1\<^sup>5\<close>, so the sign of the difference of two of them is the sign of
  their exact difference; a \<^verbatim>\<open>NaN\<close> difference is taken as \<open>0\<close> by
  \<^verbatim>\<open>Array.prototype.sort\<close>.
\<close>

record 'a chart_point = "'a totals" +
  name :: string

definition chart_point :: "(string \<Rightarrow> string) \<Rightarrow> string \<times> 'a bucket \<Rightarrow> 'a chart_point" where
  "chart_point toLocaleString p =
     \<lparr>income = income (snd p), expenses = expenses (snd p), balance = balance (snd p),
      name = toLocaleString (fst p)\<rparr>"

definition compareByTime :: "(string \<Rightarrow> int option) \<Rightarrow> 'a chart_point \<Rightarrow> 'a chart_point \<Rightarrow> int" where
  "compareByTime getTime a b =
     (case getTime (name a) of
        None \<Rightarrow> 0
      | Some x \<Rightarrow> (case getTime (name b) of None \<Rightarrow> 0 | Some y \<Rightarrow> x - y))"

text \<open>
  \<^verbatim>\<open>Array.prototype.sort\<close> is stable and, for a consistent comparator, returns
  the elements in the comparator's order; a stable insertion sort is such a sort.
  (For an inconsistent comparator the order is left to the implementation; nothing
  below depends on it.)
\<close>

fun insert_by :: "('e \<Rightarrow> 'e \<Rightarrow> int) \<Rightarrow> 'e \<Rightarrow> 'e list \<Rightarrow> 'e list" where
  "insert_by compareFn x [] = [x]"
| "insert_by compareFn x (y # ys) =
     (if compareFn x y \<le> 0 then x # y # ys else y # insert_by compareFn x ys)"

definition sort_by :: "('e \<Rightarrow> 'e \<Rightarrow> int) \<Rightarrow> 'e list \<Rightarrow> 'e list" where
  "sort_by compareFn xs = foldr (insert_by compareFn) xs []"

definition monthlyChartData ::
  "(string \<Rightarrow> string) \<Rightarrow> (string \<Rightarrow> int option) \<Rightarrow> 'a bucket object \<Rightarrow> 'a chart_point list" where
  "monthlyChartData toLocaleString getTime monthlyData =
     sort_by (compareByTime getTime) (map (chart_point toLocaleString) (Object_entries monthlyData))"

definition entry_time :: "(string \<Rightarrow> int option) \<Rightarrow> 'a chart_point \<Rightarrow> int" where
  "entry_time getTime a = (case getTime (name a) of None \<Rightarrow> 0 | Some x \<Rightarrow> x)"

section \<open>Transaction service\<close>

text \<open>
  The route handlers pass the request to the Mongoose model \<^verbatim>\<open>Transaction\<close>. The
  collection is modelled as the list of its documents, a document as its
  identifier and its fields, a JSON body as its fields. A handler returns the new
  collection and either the value it responds with or the error that leaves it
  uncaught (no handler catches anything).
\<close>

datatype jvalue = JString string | JNumber int | JNull

type_synonym 'v fields = "string \<rightharpoonup> 'v"

type_synonym 'v document = "string \<times> 'v fields"

type_synonym 'v collection = "'v document list"

datatype schema_type = StringType | NumberType | DateType

definition TransactionSchema :: "(string \<times> schema_type) list" where
  "TransactionSchema =
     [(''description'', StringType), (''amount'', NumberType), (''type'', StringType),
      (''category'', StringType), (''date'', DateType)]"

datatype error = ValidationError

text \<open>
  Modelled from the spec: the cast of one value to the type its path declares,
  which Mongoose applies and which is not in the sources (``malformed input either
  fails at parse time or is stored as-is''). A value that already has the declared
  type (a string on a \<^verbatim>\<open>String\<close> path, a number on a \<^verbatim>\<open>Number\<close> path) is
  stored as it is; what the library does with any other value, convert it or refuse
  it, is the parameter \<open>convert\<close>, \<open>None\<close> when it refuses.
\<close>

definition cast ::
  "(schema_type \<Rightarrow> jvalue \<Rightarrow> jvalue option) \<Rightarrow> schema_type \<Rightarrow> jvalue \<Rightarrow> jvalue option" where
  "cast convert ty v =
     (case (ty, v) of
        (StringType, JString s) \<Rightarrow> Some (JString s)
      | (NumberType, JNumber n) \<Rightarrow> Some (JNumber n)
      | _ \<Rightarrow> convert ty v)"

text \<open>
  Modelled from the spec: the casting and validation of a body in
  \<^verbatim>\<open>new Transaction(body)\<close> and \<^verbatim>\<open>save()\<close>, which are not in the sources.
  The schema above is the one of the sources. Paths that the schema does not
  declare are dropped, a value that is refused makes \<^verbatim>\<open>save()\<close> reject, and
  nothing else is checked: the schema declares no \<^verbatim>\<open>enum\<close> and no
  \<^verbatim>\<open>required\<close>.
\<close>

definition castDocument ::
  "(schema_type \<Rightarrow> jvalue \<Rightarrow> jvalue option) \<Rightarrow> jvalue fields \<Rightarrow> error + jvalue fields" where
  "castDocument convert body =
     (if list_ex (\<lambda>(path, ty). case body path of None \<Rightarrow> False | Some v \<Rightarrow> cast convert ty v = None)
           TransactionSchema
      then Inl ValidationError
      else Inr (\<lambda>path. case map_of TransactionSchema path of
                          None \<Rightarrow> None
                        | Some ty \<Rightarrow> (case body path of None \<Rightarrow> None | Some v \<Rightarrow> cast convert ty v)))"

text \<open>
  \<^verbatim>\<open>POST\<close>: the document is built from the body, saved and returned with
  \<^verbatim>\<open>NextResponse.json\<close>, whose status is \<open>200\<close> when none is given; \<open>newId\<close> is
  the identifier the store assigns. The handler has no \<^verbatim>\<open>try\<close>: when
  \<^verbatim>\<open>save()\<close> rejects, the error leaves the handler and no response is built. An
  outcome is the response (status and payload) or the error thrown.
\<close>

datatype 'r outcome = Responded nat 'r | Thrown error

definition POST ::
  "(schema_type \<Rightarrow> jvalue \<Rightarrow> jvalue option) \<Rightarrow> string \<Rightarrow> jvalue collection \<Rightarrow> jvalue fields
     \<Rightarrow> jvalue collection \<times> jvalue document outcome" where
  "POST convert newId db body =
     (case castDocument convert body of
        Inl e \<Rightarrow> (db, Thrown e)
      | Inr newTransaction \<Rightarrow>
          (db @ [(newId, newTransaction)], Responded 200 (newId, newTransaction)))"

text \<open>
  Modelled from the spec: update-by-id of the persistence collaborator
  (\<^verbatim>\<open>findByIdAndUpdate\<close> with \<^verbatim>\<open>{ new: true }\<close>, which is not in the sources):
  it ``returns updated record or null if id absent''. The fields of the body
  overwrite the stored ones, which for the full record body that the client sends
  replaces the record.
\<close>

fun findByIdAndUpdate ::
  "'v collection \<Rightarrow> string \<Rightarrow> 'v fields \<Rightarrow> 'v collection \<times> 'v document option" where
  "findByIdAndUpdate [] id' body = ([], None)"
| "findByIdAndUpdate (d # db) id' body =
     (if fst d = id' then ((id', snd d ++ body) # db, Some (id', snd d ++ body))
      else (d # fst (findByIdAndUpdate db id' body), snd (findByIdAndUpdate db id' body)))"

definition PUT ::
  "'v collection \<Rightarrow> string \<Rightarrow> 'v fields \<Rightarrow> 'v collection \<times> (error + 'v document option)" where
  "PUT db id' body =
     (let (db', updatedTransaction) = findByIdAndUpdate db id' body
      in (db', Inr updatedTransaction))"

text \<open>
  Modelled from the spec: delete-by-id of the persistence collaborator
  (\<^verbatim>\<open>findByIdAndDelete\<close>, which is not in the sources): the record with the
  identifier is removed, and nothing happens when there is none.
\<close>

fun findByIdAndDelete :: "'v collection \<Rightarrow> string \<Rightarrow> 'v collection" where
  "findByIdAndDelete [] id' = []"
| "findByIdAndDelete (d # db) id' = (if fst d = id' then db else d # findByIdAndDelete db id')"

definition DELETE :: "'v collection \<Rightarrow> string \<Rightarrow> 'v collection \<times> (error + string)" where
  "DELETE db id' = (findByIdAndDelete db id', Inr ''Transaction deleted successfully'')"

section \<open>Sums and summaries\<close>

subsection \<open>Sums in list order\<close>

text \<open>
  The sum of a list of amounts, accumulated from \<open>0\<close> in list order with the
  addition of the amount type, as a \<^verbatim>\<open>forEach\<close> loop with \<^verbatim>\<open>+=\<close> does.
\<close>

definition sum_amounts :: "'a::{zero,plus} list \<Rightarrow> 'a" where
  "sum_amounts xs = foldl (+) 0 xs"

text \<open>
  The summaries the aggregation is compared with: the bucket every month starts from,
  the bucket of the transactions of one month, and the total of one category.
\<close>

definition empty_bucket :: "'a::zero bucket" where
  "empty_bucket = \<lparr>income = 0, expenses = 0, balance = 0, transactions = []\<rparr>"

definition month_bucket :: "string \<Rightarrow> 'a::{zero,plus,minus} transaction list \<Rightarrow> 'a bucket" where
  "month_bucket k txs =
     (let ts = filter (\<lambda>t. monthYear t = k) txs;
          i = sum_amounts (map amount (filter (\<lambda>t. type t = ''income'') ts));
          e = sum_amounts (map amount (filter (\<lambda>t. type t \<noteq> ''income'') ts))
      in \<lparr>income = i, expenses = e, balance = i - e, transactions = ts\<rparr>)"

definition category_total :: "string \<Rightarrow> 'a::{zero,plus} transaction list \<Rightarrow> 'a" where
  "category_total c txs =
     sum_amounts (map amount (filter (\<lambda>t. type t = ''expense'' \<and> category t = c) txs))"

subsection \<open>Whole amounts\<close>

text \<open>
  A number is whole when it is finite and an integer; the magnitude of a finite
  number is its absolute value. A list of transactions has whole amounts when every
  amount is whole and the magnitudes of all amounts add up to at most \<open>2\<^sup>5\<^sup>3\<close>
  (the sum of the magnitudes is the exact, rational one). \<open>units x\<close> is the integer
  a whole number stands for.
\<close>

definition whole :: "number \<Rightarrow> bool" where
  "whole x = (case x of Finite q \<Rightarrow> q = of_int \<lfloor>q\<rfloor> | _ \<Rightarrow> False)"

definition magnitude :: "number \<Rightarrow> rat" where
  "magnitude x = (case x of Finite q \<Rightarrow> \<bar>q\<bar> | _ \<Rightarrow> 0)"

definition whole_amounts :: "number transaction list \<Rightarrow> bool" where
  "whole_amounts txs =
     (list_all (\<lambda>t. whole (amount t)) txs \<and> (\<Sum>t\<leftarrow>txs. magnitude (amount t)) \<le> 2 ^ 53)"

definition units :: "number \<Rightarrow> int" where
  "units x = (case x of Finite q \<Rightarrow> \<lfloor>q\<rfloor> | _ \<Rightarrow> 0)"

section \<open>Sample data\<close>

text \<open>
  The example of the specification, with integer amounts and with the same amounts
  as JavaScript numbers, a transaction whose type is neither \<^verbatim>\<open>"income"\<close> nor
  \<^verbatim>\<open>"expense"\<close>, and an expense of \<open>50\<close> in a given category.
\<close>

definition example_transactions :: "int transaction list" where
  "example_transactions =
     [\<lparr>tx_id = ''1'', description = ''salary'', amount = 1000, type = ''income'',
        category = ''job'', date = ''2024-01-05''\<rparr>,
      \<lparr>tx_id = ''2'', description = ''groceries'', amount = 200, type = ''expense'',
        category = ''food'', date = ''2024-01-10''\<rparr>,
      \<lparr>tx_id = ''3'', description = ''lunch'', amount = 50, type = ''expense'',
        category = ''food'', date = ''2024-02-01''\<rparr>]"

definition as_double :: "int transaction \<Rightarrow> number transaction" where
  "as_double t =
     \<lparr>tx_id = tx_id t, description = description t, amount = Finite (of_int (amount t)),
      type = type t, category = category t, date = date t\<rparr>"

definition whole_transactions :: "number transaction list" where
  "whole_transactions = map as_double example_transactions"

definition refund :: "number transaction" where
  "refund = \<lparr>tx_id = ''5'', description = ''returned goods'', amount = Finite 20,
              type = ''refund'', category = ''food'', date = ''2024-02-07''\<rparr>"

definition expense_in :: "string \<Rightarrow> number transaction" where
  "expense_in c = \<lparr>tx_id = ''6'', description = ''purchase'', amount = Finite 50,
                    type = ''expense'', category = c, date = ''2024-02-09''\<rparr>"

text \<open>
  Incomes whose amounts are the doubles nearest to the decimal fractions a user
  types: \<open>0.1\<close>, \<open>0.2\<close> and \<open>0.3\<close>, once in one month and once over two months.
\<close>

definition income_on :: "string \<Rightarrow> rat \<Rightarrow> number transaction" where
  "income_on d x =
     \<lparr>tx_id = d, description = ''pay'', amount = round_double x, type = ''income'',
      category = ''job'', date = d\<rparr>"

definition same_month :: "number transaction list" where
  "same_month =
     [income_on ''2024-01-01'' (1 / 10), income_on ''2024-01-02'' (2 / 10),
      income_on ''2024-01-03'' (3 / 10)]"

definition two_months :: "number transaction list" where
  "two_months =
     [income_on ''2024-02-01'' (3 / 10), income_on ''2024-01-02'' (2 / 10),
      income_on ''2024-01-03'' (1 / 10)]"

text \<open>
  Two expenses, of May and of April 2024, newest first as the service lists them.
  A runtime for these two months as an English locale in the UTC time zone behaves:
  the labels of the two keys and the time values of the two labels; every other
  string is not a date. And a runtime whose default locale is French, in the time
  zone of Paris: the labels are \<^verbatim>\<open>"avr. 2024"\<close> and \<^verbatim>\<open>"mai 2024"\<close>, which
  \<^verbatim>\<open>Date\<close> does not read back as April and May. A parser that skips a word it
  does not know reads the year alone, the first instant of 2024 for both labels
  (\<open>year_getTime\<close>); a stricter parser reads no date from either
  (\<open>no_getTime\<close>), or from one of them (\<open>may_getTime\<close>).
\<close>

definition spring :: "int transaction list" where
  "spring =
     [\<lparr>tx_id = ''1'', description = ''rent'', amount = 700, type = ''expense'',
        category = ''home'', date = ''2024-05-02''\<rparr>,
      \<lparr>tx_id = ''2'', description = ''rent'', amount = 700, type = ''expense'',
        category = ''home'', date = ''2024-04-02''\<rparr>]"

definition english_toLocaleString :: "string \<Rightarrow> string" where
  "english_toLocaleString month =
     (if month = ''2024-04'' then ''Apr 2024''
      else if month = ''2024-05'' then ''May 2024''
      else ''Invalid Date'')"

definition english_getTime :: "string \<Rightarrow> int option" where
  "english_getTime label =
     (if label = ''Apr 2024'' then Some 1711929600000
      else if label = ''May 2024'' then Some 1714521600000
      else None)"

definition french_toLocaleString :: "string \<Rightarrow> string" where
  "french_toLocaleString month =
     (if month = ''2024-04'' then ''avr. 2024''
      else if month = ''2024-05'' then ''mai 2024''
      else ''Invalid Date'')"

definition year_getTime :: "string \<Rightarrow> int option" where
  "year_getTime label =
     (if label = ''avr. 2024'' \<or> label = ''mai 2024'' then Some 1704063600000 else None)"

definition may_getTime :: "string \<Rightarrow> int option" where
  "may_getTime label = (if label = ''mai 2024'' then Some 1704063600000 else None)"

definition no_getTime :: "string \<Rightarrow> int option" where
  "no_getTime label = None"

text \<open>
  A library that takes a date given as \<^verbatim>\<open>YYYY-MM-DD\<close> and refuses every other
  value that has not the declared type, a request body whose type is outside the
  enum, one whose amount is a text, and a collection of two records.
\<close>

definition iso_date :: "string \<Rightarrow> bool" where
  "iso_date s =
     (length s = 10 \<and> list_all digit (take 4 s) \<and> s ! 4 = CHR ''-''
      \<and> list_all digit (take 2 (drop 5 s)) \<and> s ! 7 = CHR ''-'' \<and> list_all digit (drop 8 s))"

definition dates_only :: "schema_type \<Rightarrow> jvalue \<Rightarrow> jvalue option" where
  "dates_only ty v =
     (case (ty, v) of
        (DateType, JString s) \<Rightarrow> if iso_date s then Some (JString s) else None
      | _ \<Rightarrow> None)"

definition gift_body :: "jvalue fields" where
  "gift_body =
     [''description'' \<mapsto> JString ''birthday'', ''amount'' \<mapsto> JNumber 25,
      ''type'' \<mapsto> JString ''gift'', ''category'' \<mapsto> JString ''family'',
      ''date'' \<mapsto> JString ''2024-03-01'']"

definition text_amount_body :: "jvalue fields" where
  "text_amount_body = gift_body(''amount'' \<mapsto> JString ''a lot'')"

definition sample_db :: "jvalue collection" where
  "sample_db =
     [(''id1'', gift_body), (''id2'', gift_body(''description'' \<mapsto> JString ''wedding''))]"

section \<open>Lemmas\<close>

subsection \<open>Sums\<close>

lemma sum_amounts_snoc: "sum_amounts (xs @ [x]) = sum_amounts xs + x"
  by (simp add: sum_amounts_def)

subsection \<open>Objects\<close>

lemma map_of_assign: "map_of (assign k v ps) = (map_of ps)(k \<mapsto> v)"
  by (induction ps) (auto simp: fun_eq_iff)

lemma keys_assign: "fst ` set (assign k v ps) = insert k (fst ` set ps)"
  by (induction ps) auto

lemma distinct_assign: "distinct (map fst ps) \<Longrightarrow> distinct (map fst (assign k v ps))"
  by (induction ps) (auto simp: keys_assign)

lemma mset_Object_entries: "mset (Object_entries ps) = mset ps"
  by (simp add: Object_entries_def)

lemma set_Object_entries: "set (Object_entries ps) = set ps"
  by (metis mset_Object_entries set_mset_mset)

lemma distinct_keys_Object_entries:
  "distinct (map fst (Object_entries ps)) = distinct (map fst ps)"
proof -
  have "mset (map fst (Object_entries ps)) = mset (map fst ps)"
    using mset_Object_entries [of ps] by (metis mset_map)
  then show ?thesis by (rule mset_eq_imp_distinct_iff)
qed

lemma map_of_Object_entries:
  "distinct (map fst ps) \<Longrightarrow> map_of (Object_entries ps) = map_of ps"
  by (simp add: map_of_inject_set distinct_keys_Object_entries set_Object_entries)

lemma pair_map_id: "map (\<lambda>(name, value). (name, value)) ps = ps"
  by (induction ps) auto

subsection \<open>The monthly aggregation\<close>

lemma map_of_addToMonth:
  "map_of (addToMonth md t) =
     (map_of md)(monthYear t \<mapsto>
        record_transaction t (case map_of md (monthYear t) of None \<Rightarrow> empty_bucket | Some b \<Rightarrow> b))"
  by (auto simp: addToMonth_def Let_def map_of_assign empty_bucket_def fun_eq_iff split: option.splits)

lemma keys_addToMonth: "fst ` set (addToMonth md t) = insert (monthYear t) (fst ` set md)"
  by (auto simp: addToMonth_def Let_def map_of_assign keys_assign split: option.splits if_splits)

lemma distinct_addToMonth:
  "distinct (map fst md) \<Longrightarrow> distinct (map fst (addToMonth md t))"
  by (auto simp: addToMonth_def Let_def distinct_assign split: option.splits)

lemma calculateMonthlyData_snoc:
  "calculateMonthlyData (txs @ [t]) = addToMonth (calculateMonthlyData txs) t"
  by (simp add: calculateMonthlyData_def)

lemma keys_calculateMonthlyData:
  "fst ` set (calculateMonthlyData txs) = monthYear ` set txs"
  by (induction txs rule: rev_induct)
     (auto simp: calculateMonthlyData_snoc keys_addToMonth, auto simp: calculateMonthlyData_def)

lemma distinct_calculateMonthlyData: "distinct (map fst (calculateMonthlyData txs))"
  by (induction txs rule: rev_induct)
     (auto simp: calculateMonthlyData_snoc distinct_addToMonth, auto simp: calculateMonthlyData_def)

lemma record_first:
  "monthYear t \<notin> monthYear ` set txs \<Longrightarrow>
   record_transaction t empty_bucket = month_bucket (monthYear t) (txs @ [t])"
proof -
  assume "monthYear t \<notin> monthYear ` set txs"
  then have "\<And>x. x \<in> set txs \<Longrightarrow> monthYear x \<noteq> monthYear t"
    by (metis image_eqI)
  then have e: "filter (\<lambda>x. monthYear x = monthYear t) txs = []"
    by (simp add: filter_empty_conv)
  show ?thesis
    by (simp add: record_transaction_def empty_bucket_def month_bucket_def Let_def
        sum_amounts_def e)
qed

lemma record_next:
  "record_transaction t (month_bucket (monthYear t) txs) = month_bucket (monthYear t) (txs @ [t])"
  by (auto simp: record_transaction_def month_bucket_def Let_def sum_amounts_def)

lemma month_bucket_other:
  "monthYear t \<noteq> k \<Longrightarrow> month_bucket k (txs @ [t]) = month_bucket k txs"
  by (simp add: month_bucket_def)

lemma map_of_calculateMonthlyData:
  "map_of (calculateMonthlyData txs) k =
     (if k \<in> monthYear ` set txs then Some (month_bucket k txs) else None)"
proof (induction txs rule: rev_induct)
  case Nil
  show ?case by (simp add: calculateMonthlyData_def)
next
  case (snoc t txs)
  show ?case
  proof (cases "monthYear t = k")
    case True
    then show ?thesis
      using snoc record_first [of t txs] record_next [of t txs]
      by (auto simp: calculateMonthlyData_snoc map_of_addToMonth)
  next
    case False
    then show ?thesis
      using snoc by (auto simp: calculateMonthlyData_snoc map_of_addToMonth month_bucket_other)
  qed
qed

lemma bucket_in_monthly:
  "(k, b) \<in> set (calculateMonthlyData txs) \<Longrightarrow> b = month_bucket k txs"
proof -
  assume "(k, b) \<in> set (calculateMonthlyData txs)"
  then have "map_of (calculateMonthlyData txs) k = Some b"
    by (simp add: distinct_calculateMonthlyData)
  then show ?thesis
    by (simp add: map_of_calculateMonthlyData split: if_splits)
qed

subsection \<open>The annual aggregation\<close>

lemma foldl_addToAnnual:
  "foldl addToAnnual a txs =
     a\<lparr>income := foldl (+) (income a) (map amount (filter (\<lambda>t. type t = ''income'') txs)),
       expenses := foldl (+) (expenses a) (map amount (filter (\<lambda>t. type t \<noteq> ''income'') txs))\<rparr>"
  by (induction txs arbitrary: a) (simp_all add: addToAnnual_def)

lemma calculateAnnualData_eq:
  "calculateAnnualData txs =
     \<lparr>income = sum_amounts (map amount (filter (\<lambda>t. type t = ''income'') txs)),
      expenses = sum_amounts (map amount (filter (\<lambda>t. type t \<noteq> ''income'') txs)),
      balance = sum_amounts (map amount (filter (\<lambda>t. type t = ''income'') txs))
                - sum_amounts (map amount (filter (\<lambda>t. type t \<noteq> ''income'') txs))\<rparr>"
  by (simp add: calculateAnnualData_def foldl_addToAnnual Let_def sum_amounts_def)

lemma calculateAnnualData_snoc:
  "income (calculateAnnualData (txs @ [t])) =
     (if type t = ''income'' then income (calculateAnnualData txs) + amount t
      else income (calculateAnnualData txs))"
  "expenses (calculateAnnualData (txs @ [t])) =
     (if type t = ''income'' then expenses (calculateAnnualData txs)
      else expenses (calculateAnnualData txs) + amount t)"
  by (simp_all add: calculateAnnualData_def Let_def addToAnnual_def)

subsection \<open>The category totals\<close>

lemma distinct_addToCategory:
  "distinct (map fst cs) \<Longrightarrow> distinct (map fst (addToCategory cs t))"
  by (simp add: addToCategory_def set_property_def distinct_assign)

lemma distinct_categories: "distinct (map fst (foldl addToCategory [] txs))"
  by (induction txs rule: rev_induct) (simp_all add: distinct_addToCategory)

lemma expensesByCategory_skip:
  "type t \<noteq> ''expense'' \<Longrightarrow> expensesByCategory (xs @ t # ys) = expensesByCategory (xs @ ys)"
  by (simp add: expensesByCategory_def addToCategory_def)

lemma map_of_expensesByCategory_fold:
  "map_of (expensesByCategory txs) = map_of (foldl addToCategory [] txs)"
  by (simp only: expensesByCategory_def pair_map_id map_of_Object_entries [OF distinct_categories])

lemma distinct_expensesByCategory: "distinct (map fst (expensesByCategory txs))"
  by (simp only: expensesByCategory_def pair_map_id distinct_keys_Object_entries distinct_categories)

text \<open>
  A label that names no member of \<^verbatim>\<open>Object.prototype\<close> only ever holds a number.
  An expense with such a label sets its total to the stored total, or \<open>0\<close> when
  there is none or when it is \<open>0\<close> or \<^verbatim>\<open>NaN\<close>, plus the amount. So as long as
  no running total of the label is \<^verbatim>\<open>NaN\<close>, the total is the sum of the amounts
  of the expenses with the label, accumulated in list order.
\<close>

lemma map_of_set_property:
  "map_of (set_property k v obj) = (if k = ''__proto__'' then map_of obj else (map_of obj)(k \<mapsto> v))"
  by (simp add: set_property_def map_of_assign)

lemma prototype_members:
  "''__proto__'' \<in> set Object_prototype" "''constructor'' \<in> set Object_prototype"
  by (simp_all add: Object_prototype_def)

lemma ordinary_label_number:
  assumes "c \<notin> set Object_prototype"
  shows "map_of (foldl addToCategory [] txs) c = None
         \<or> (\<exists>x. map_of (foldl addToCategory [] txs) c = Some (Num x))"
proof (induction txs rule: rev_induct)
  case Nil
  show ?case by simp
next
  case (snoc t txs)
  show ?case
  proof (cases "type t = ''expense'' \<and> category t = c")
    case False
    then show ?thesis
      using snoc by (auto simp: addToCategory_def map_of_set_property)
  next
    case True
    with assms have p: "c \<noteq> ''__proto__''"
      using prototype_members(1) by auto
    from snoc show ?thesis
      using True assms p
      by (auto simp: addToCategory_def map_of_set_property get_property_def or_zero_def
          plus_value_def)
  qed
qed

lemma ordinary_label_step:
  assumes "type t = ''expense''" "category t \<notin> set Object_prototype"
  shows "map_of (expensesByCategory (txs @ [t])) (category t) =
           Some (Num ((case map_of (expensesByCategory txs) (category t) of
                         Some (Num v) \<Rightarrow> if v = 0 \<or> v = NaN then 0 else v
                       | _ \<Rightarrow> 0) + amount t))"
proof -
  have p: "category t \<noteq> ''__proto__''"
    using assms(2) prototype_members(1) by auto
  from ordinary_label_number [OF assms(2), of txs] show ?thesis
    using assms p
    by (auto simp: map_of_expensesByCategory_fold addToCategory_def map_of_set_property
        get_property_def or_zero_def plus_value_def)
qed

lemma ordinary_category_total:
  assumes "c \<notin> set Object_prototype"
    and "\<forall>n\<le>length txs. category_total c (take n txs) \<noteq> NaN"
  shows "map_of (expensesByCategory txs) c =
     (if \<exists>t\<in>set txs. type t = ''expense'' \<and> category t = c
      then Some (Num (category_total c txs)) else None)"
  using assms(2)
proof (induction txs rule: rev_induct)
  case Nil
  show ?case by (simp add: map_of_expensesByCategory_fold)
next
  case (snoc t txs)
  have "\<forall>n\<le>length txs. category_total c (take n txs) \<noteq> NaN"
  proof (intro allI impI)
    fix n assume "n \<le> length txs"
    then show "category_total c (take n txs) \<noteq> NaN"
      using snoc.prems [rule_format, of n] by simp
  qed
  then have ih: "map_of (expensesByCategory txs) c =
     (if \<exists>t\<in>set txs. type t = ''expense'' \<and> category t = c
      then Some (Num (category_total c txs)) else None)"
    by (rule snoc.IH)
  have nn: "category_total c txs \<noteq> NaN"
    using snoc.prems [rule_format, of "length txs"] by simp
  show ?case
  proof (cases "type t = ''expense'' \<and> category t = c")
    case False
    then show ?thesis
      using ih by (auto simp: map_of_expensesByCategory_fold addToCategory_def
          map_of_set_property category_total_def)
  next
    case True
    then have s: "map_of (expensesByCategory (txs @ [t])) c =
           Some (Num ((case map_of (expensesByCategory txs) c of
                         Some (Num v) \<Rightarrow> if v = 0 \<or> v = NaN then 0 else v
                       | _ \<Rightarrow> 0) + amount t))"
      using ordinary_label_step [of t txs] assms(1) by simp
    show ?thesis
    proof (cases "\<exists>u\<in>set txs. type u = ''expense'' \<and> category u = c")
      case True
      with ih have "map_of (expensesByCategory txs) c = Some (Num (category_total c txs))"
        by simp
      with s nn \<open>type t = ''expense'' \<and> category t = c\<close> show ?thesis
        by (auto simp: category_total_def sum_amounts_def)
    next
      case False
      then have e: "filter (\<lambda>t. type t = ''expense'' \<and> category t = c) txs = []"
        by (auto simp: filter_empty_conv)
      from False ih have "map_of (expensesByCategory txs) c = None"
        by simp
      with s \<open>type t = ''expense'' \<and> category t = c\<close> show ?thesis
        by (auto simp: category_total_def sum_amounts_def e)
    qed
  qed
qed

subsection \<open>The chart series\<close>

lemma insert_by_insort:
  assumes "\<And>y. y \<in> set ys \<Longrightarrow> (compareFn x y \<le> 0) = (f x \<le> f y)"
  shows "insert_by compareFn x ys = insort_key f x ys"
  using assms by (induction ys) auto

lemma sort_by_sort_key:
  assumes "\<And>x y. x \<in> set xs \<Longrightarrow> y \<in> set xs \<Longrightarrow> (compareFn x y \<le> 0) = (f x \<le> f y)"
  shows "sort_by compareFn xs = sort_key f xs"
  using assms
proof (induction xs)
  case Nil
  show ?case by (simp add: sort_by_def)
next
  case (Cons x xs)
  have "sort_by compareFn xs = sort_key f xs"
    using Cons by simp
  moreover have "insert_by compareFn x (sort_key f xs) = insort_key f x (sort_key f xs)"
    by (rule insert_by_insort) (simp add: Cons.prems)
  ultimately show ?case
    by (simp add: sort_by_def)
qed

lemma filter_eq_singleton: "distinct ys \<Longrightarrow> k \<in> set ys \<Longrightarrow> filter (\<lambda>x. k = x) ys = [k]"
  by (induction ys) (auto simp: filter_empty_conv)

lemma sort_key_unique:
  fixes f :: "'e \<Rightarrow> int"
  assumes "mset xs = mset ys" "distinct xs" "inj_on f (set xs)"
  shows "sort_key f xs = sort_key f ys"
proof (rule properties_for_sort_key [symmetric])
  show "mset (sort_key f xs) = mset ys"
    using assms by simp
  show "sorted (map f (sort_key f xs))"
    by simp
  fix k
  assume "k \<in> set (sort_key f xs)"
  then have k: "k \<in> set xs" by simp
  have dy: "distinct ys" using assms by (metis mset_eq_imp_distinct_iff)
  have sy: "set ys = set xs" using assms by (metis mset_eq_setD)
  have "filter (\<lambda>x. f k = f x) (sort_key f xs) = filter (\<lambda>x. k = x) (sort_key f xs)"
    by (rule filter_cong) (use k assms in \<open>auto dest: inj_onD\<close>)
  moreover have "filter (\<lambda>x. f k = f x) ys = filter (\<lambda>x. k = x) ys"
    by (rule filter_cong) (use k sy assms in \<open>auto dest: inj_onD\<close>)
  moreover have "filter (\<lambda>x. k = x) (sort_key f xs) = [k]"
    using k assms by (simp add: filter_eq_singleton)
  moreover have "filter (\<lambda>x. k = x) ys = [k]"
    using k sy dy by (simp add: filter_eq_singleton)
  ultimately show "filter (\<lambda>x. f k = f x) (sort_key f xs) = filter (\<lambda>x. f k = f x) ys"
    by simp
qed

lemma name_chart_point: "name (chart_point toLocaleString p) = toLocaleString (fst p)"
  by (simp add: chart_point_def)

lemma chart_points:
  fixes md :: "'a bucket object"
  assumes d: "distinct (map fst md)"
    and parse: "\<And>k. k \<in> fst ` set md \<Longrightarrow> getTime (toLocaleString k) \<noteq> None"
    and inj: "\<And>k k'. k \<in> fst ` set md \<Longrightarrow> k' \<in> fst ` set md \<Longrightarrow>
                getTime (toLocaleString k) = getTime (toLocaleString k') \<Longrightarrow> k = k'"
  shows "monthlyChartData toLocaleString getTime md =
           sort_key (entry_time getTime) (map (chart_point toLocaleString) (Object_entries md))"
    and "inj_on (\<lambda>p. entry_time getTime (chart_point toLocaleString p)) (set md)"
proof -
  have t: "\<exists>x. getTime (toLocaleString (fst p)) = Some x" if "p \<in> set md" for p
    using parse [of "fst p"] that by auto
  show "monthlyChartData toLocaleString getTime md =
           sort_key (entry_time getTime) (map (chart_point toLocaleString) (Object_entries md))"
    unfolding monthlyChartData_def
  proof (rule sort_by_sort_key)
    fix a b
    assume "a \<in> set (map (chart_point toLocaleString) (Object_entries md))"
      and "b \<in> set (map (chart_point toLocaleString) (Object_entries md))"
    then obtain p q where "p \<in> set md" "q \<in> set md"
      and a: "a = chart_point toLocaleString p" and b: "b = chart_point toLocaleString q"
      by (auto simp: set_Object_entries)
    then obtain x y where "getTime (toLocaleString (fst p)) = Some x"
      and "getTime (toLocaleString (fst q)) = Some y"
      using t by blast
    then show "(compareByTime getTime a b \<le> 0) = (entry_time getTime a \<le> entry_time getTime b)"
      by (simp add: compareByTime_def entry_time_def a b name_chart_point)
  qed
  show "inj_on (\<lambda>p. entry_time getTime (chart_point toLocaleString p)) (set md)"
  proof (rule inj_onI)
    fix p q
    assume p: "p \<in> set md" and q: "q \<in> set md"
      and e: "entry_time getTime (chart_point toLocaleString p)
               = entry_time getTime (chart_point toLocaleString q)"
    from t p q obtain x y where x: "getTime (toLocaleString (fst p)) = Some x"
      and y: "getTime (toLocaleString (fst q)) = Some y"
      by blast
    with e have "getTime (toLocaleString (fst p)) = getTime (toLocaleString (fst q))"
      by (simp add: entry_time_def name_chart_point)
    then have "fst p = fst q"
      using inj p q by (metis image_eqI)
    with d p q show "p = q"
      by (metis eq_key_imp_eq_value prod.collapse)
  qed
qed

lemma sorted_wrt_sort_key_inj:
  fixes f :: "'e \<Rightarrow> int"
  assumes "distinct xs" "inj_on f (set xs)"
  shows "sorted_wrt (\<lambda>a b. f a < f b) (sort_key f xs)"
proof -
  have "distinct (map f (sort_key f xs))"
    using assms by (simp add: distinct_map)
  then have "sorted_wrt (<) (map f (sort_key f xs))"
    by (simp add: strict_sorted_iff)
  then show ?thesis
    by (simp add: sorted_wrt_map)
qed

lemma distinct_keys_distinct: "distinct (map fst md) \<Longrightarrow> distinct md"
  by (simp add: distinct_map)

text \<open>
  When the runtime does not tell the months of the list apart, reading from the
  labels of every two of them either no time for one of them or the same time for
  both, the comparator gives no difference and the series is in insertion order.
\<close>

lemma sort_by_keeps:
  assumes "\<And>a b. a \<in> set xs \<Longrightarrow> b \<in> set xs \<Longrightarrow> compareFn a b \<le> 0"
  shows "sort_by compareFn xs = xs"
  using assms
proof (induction xs)
  case Nil
  show ?case by (simp add: sort_by_def)
next
  case (Cons x xs)
  then have "sort_by compareFn xs = xs" by simp
  moreover have "insert_by compareFn x xs = x # xs"
    using Cons.prems by (cases xs) simp_all
  ultimately show ?case by (simp add: sort_by_def)
qed

lemma untold_months_keep_order:
  assumes "\<And>k k'. k \<in> fst ` set md \<Longrightarrow> k' \<in> fst ` set md \<Longrightarrow>
             getTime (toLocaleString k) = None \<or> getTime (toLocaleString k') = None
             \<or> getTime (toLocaleString k) = getTime (toLocaleString k')"
  shows "monthlyChartData toLocaleString getTime md =
           map (chart_point toLocaleString) (Object_entries md)"
  unfolding monthlyChartData_def
proof (rule sort_by_keeps)
  fix a b
  assume "a \<in> set (map (chart_point toLocaleString) (Object_entries md))"
    and "b \<in> set (map (chart_point toLocaleString) (Object_entries md))"
  then obtain p q where "p \<in> set md" "q \<in> set md"
    and a: "a = chart_point toLocaleString p" and b: "b = chart_point toLocaleString q"
    by (auto simp: set_Object_entries)
  then have "getTime (toLocaleString (fst p)) = None \<or> getTime (toLocaleString (fst q)) = None
             \<or> getTime (toLocaleString (fst p)) = getTime (toLocaleString (fst q))"
    by (intro assms) simp_all
  then show "compareByTime getTime a b \<le> 0"
    by (auto simp: compareByTime_def a b name_chart_point split: option.splits)
qed

text \<open>
  When the runtime reads a time from the label of every month of the list, and
  different months get different times, the chart series has one point per bucket,
  is in strictly ascending order of the times read from its labels, and is the same
  for every object that holds the same buckets in another insertion order. Whether
  these times are in the order of the months is up to the runtime.
\<close>

lemma chart_series_by_time:
  fixes txs :: "'a::{zero,plus,minus} transaction list"
  assumes parse: "\<forall>t\<in>set txs. getTime (toLocaleString (monthYear t)) \<noteq> None"
    and inj: "\<forall>t\<in>set txs. \<forall>u\<in>set txs.
                getTime (toLocaleString (monthYear t)) = getTime (toLocaleString (monthYear u))
                \<longrightarrow> monthYear t = monthYear u"
    and other: "distinct (map fst md') \<and> set md' = set (calculateMonthlyData txs)"
  shows "mset (monthlyChartData toLocaleString getTime (calculateMonthlyData txs))
           = mset (map (chart_point toLocaleString) (calculateMonthlyData txs))
       \<and> sorted_wrt (\<lambda>a b. entry_time getTime a < entry_time getTime b)
           (monthlyChartData toLocaleString getTime (calculateMonthlyData txs))
       \<and> monthlyChartData toLocaleString getTime md'
           = monthlyChartData toLocaleString getTime (calculateMonthlyData txs)"
proof -
  let ?md = "calculateMonthlyData txs"
  let ?cp = "chart_point toLocaleString"
  let ?f = "entry_time getTime"
  have d: "distinct (map fst ?md)"
    by (rule distinct_calculateMonthlyData)
  have keys: "fst ` set ?md = monthYear ` set txs"
    by (rule keys_calculateMonthlyData)
  have p: "getTime (toLocaleString k) \<noteq> None" if "k \<in> fst ` set ?md" for k
    using that parse unfolding keys by blast
  have i: "k = k'" if "k \<in> fst ` set ?md" "k' \<in> fst ` set ?md"
    "getTime (toLocaleString k) = getTime (toLocaleString k')" for k k'
    using that inj unfolding keys by blast
  have p': "getTime (toLocaleString k) \<noteq> None" if "k \<in> fst ` set md'" for k
    using that p other by simp
  have i': "k = k'" if "k \<in> fst ` set md'" "k' \<in> fst ` set md'"
    "getTime (toLocaleString k) = getTime (toLocaleString k')" for k k'
    using that i other by simp
  have c: "monthlyChartData toLocaleString getTime ?md = sort_key ?f (map ?cp (Object_entries ?md))"
    and j: "inj_on (\<lambda>p. ?f (?cp p)) (set ?md)"
    using chart_points [of ?md getTime toLocaleString, OF d p i] by blast+
  have c': "monthlyChartData toLocaleString getTime md' = sort_key ?f (map ?cp (Object_entries md'))"
    using chart_points(1) [of md' getTime toLocaleString, OF _ p' i'] other by blast
  have jc: "inj_on ?cp (set ?md)" and jf: "inj_on ?f (?cp ` set ?md)"
    using j by (auto simp: inj_on_def)
  have "distinct (Object_entries ?md)"
    using d by (intro distinct_keys_distinct) (simp only: distinct_keys_Object_entries)
  then have dp: "distinct (map ?cp (Object_entries ?md))"
    using jc by (simp add: distinct_map set_Object_entries)
  have "mset md' = mset ?md"
    using other d by (metis distinct_keys_distinct set_eq_iff_mset_eq_distinct)
  then have m: "mset (map ?cp (Object_entries ?md)) = mset (map ?cp (Object_entries md'))"
    by (simp add: mset_Object_entries)
  have 1: "mset (monthlyChartData toLocaleString getTime ?md) = mset (map ?cp ?md)"
    by (simp add: c mset_Object_entries)
  have 2: "sorted_wrt (\<lambda>a b. ?f a < ?f b) (monthlyChartData toLocaleString getTime ?md)"
    unfolding c using dp jf by (intro sorted_wrt_sort_key_inj) (simp_all add: set_Object_entries)
  have 3: "monthlyChartData toLocaleString getTime md' = monthlyChartData toLocaleString getTime ?md"
    unfolding c c' using m dp jf
    by (intro sort_key_unique [symmetric]) (simp_all add: set_Object_entries)
  from 1 2 3 show ?thesis by blast
qed

subsection \<open>The transaction service\<close>

lemma schema_type_path: "map_of TransactionSchema ''type'' = Some StringType"
  by (simp add: TransactionSchema_def)

lemma refused_iff:
  "list_ex (\<lambda>(path, ty). case body path of None \<Rightarrow> False | Some v \<Rightarrow> cast convert ty v = None)
       TransactionSchema =
     (\<exists>path ty v. (path, ty) \<in> set TransactionSchema \<and> body path = Some v \<and> cast convert ty v = None)"
proof
  assume "list_ex (\<lambda>(path, ty). case body path of None \<Rightarrow> False | Some v \<Rightarrow> cast convert ty v = None)
       TransactionSchema"
  then obtain path ty where "(path, ty) \<in> set TransactionSchema"
    and "case body path of None \<Rightarrow> False | Some v \<Rightarrow> cast convert ty v = None"
    unfolding list_ex_iff by auto
  then show "\<exists>path ty v. (path, ty) \<in> set TransactionSchema \<and> body path = Some v \<and> cast convert ty v = None"
    by (cases "body path") auto
next
  assume "\<exists>path ty v. (path, ty) \<in> set TransactionSchema \<and> body path = Some v \<and> cast convert ty v = None"
  then obtain path ty v where m: "(path, ty) \<in> set TransactionSchema"
    and "body path = Some v" "cast convert ty v = None"
    by (elim exE conjE)
  then have "case (path, ty) of (path, ty) \<Rightarrow>
          (case body path of None \<Rightarrow> False | Some v \<Rightarrow> cast convert ty v = None)"
    by simp
  with m show "list_ex (\<lambda>(path, ty). case body path of None \<Rightarrow> False | Some v \<Rightarrow> cast convert ty v = None)
       TransactionSchema"
    unfolding list_ex_iff by (rule rev_bexI)
qed

lemma POST_cases:
  "POST convert newId db body =
     (if \<exists>path ty v. (path, ty) \<in> set TransactionSchema \<and> body path = Some v \<and> cast convert ty v = None
      then (db, Thrown ValidationError)
      else (db @ [(newId, \<lambda>path. case map_of TransactionSchema path of
                          None \<Rightarrow> None
                        | Some ty \<Rightarrow> (case body path of None \<Rightarrow> None | Some v \<Rightarrow> cast convert ty v))],
            Responded 200 (newId, \<lambda>path. case map_of TransactionSchema path of
                          None \<Rightarrow> None
                        | Some ty \<Rightarrow> (case body path of None \<Rightarrow> None | Some v \<Rightarrow> cast convert ty v))))"
  unfolding POST_def castDocument_def refused_iff by simp

lemma refused_type_string:
  "list_ex (\<lambda>(path, ty). case (body(''type'' \<mapsto> JString s)) path of None \<Rightarrow> False | Some v \<Rightarrow> cast convert ty v = None)
       TransactionSchema
   = list_ex (\<lambda>(path, ty). case (body(''type'' \<mapsto> JString s')) path of None \<Rightarrow> False | Some v \<Rightarrow> cast convert ty v = None)
       TransactionSchema"
  by (simp add: TransactionSchema_def cast_def)

lemma thrown_iff:
  "(snd (POST convert newId db body) = Thrown ValidationError) =
     list_ex (\<lambda>(path, ty). case body path of None \<Rightarrow> False | Some v \<Rightarrow> cast convert ty v = None)
       TransactionSchema"
  by (simp add: POST_def castDocument_def)

lemma gift_accepted:
  "\<not> (\<exists>path ty v. (path, ty) \<in> set TransactionSchema \<and> gift_body path = Some v
                      \<and> cast dates_only ty v = None)"
proof -
  have "\<not> list_ex (\<lambda>(path, ty). case gift_body path of None \<Rightarrow> False
                                   | Some v \<Rightarrow> cast dates_only ty v = None) TransactionSchema"
    by (simp add: TransactionSchema_def gift_body_def cast_def dates_only_def iso_date_def digit_def)
  then show ?thesis
    unfolding refused_iff .
qed

lemma text_amount_refused:
  "\<exists>path ty v. (path, ty) \<in> set TransactionSchema \<and> text_amount_body path = Some v
                      \<and> cast dates_only ty v = None"
proof -
  have "(''amount'', NumberType) \<in> set TransactionSchema
   \<and> text_amount_body ''amount'' = Some (JString ''a lot'')
   \<and> cast dates_only NumberType (JString ''a lot'') = None"
    by (simp add: TransactionSchema_def text_amount_body_def cast_def dates_only_def)
  then show ?thesis by (intro exI)
qed

lemma gift_type: "gift_body(''type'' \<mapsto> JString ''gift'') = gift_body"
  by (rule ext) (simp add: gift_body_def)

lemma findByIdAndUpdate_absent:
  "id' \<notin> fst ` set db \<Longrightarrow> findByIdAndUpdate db id' body = (db, None)"
  by (induction db) auto

lemma findByIdAndUpdate_present:
  "id' \<in> fst ` set db \<Longrightarrow>
     \<exists>old. find (\<lambda>x. fst x = id') db = Some old
       \<and> snd (findByIdAndUpdate db id' body) = Some (id', snd old ++ body)
       \<and> find (\<lambda>x. fst x = id') (fst (findByIdAndUpdate db id' body)) = Some (id', snd old ++ body)"
  by (induction db) auto

lemma findByIdAndUpdate_ids:
  "map fst (fst (findByIdAndUpdate db id' body)) = map fst db"
  by (induction db) auto

lemma PUT_eq: "PUT db id' body =
  (fst (findByIdAndUpdate db id' body), Inr (snd (findByIdAndUpdate db id' body)))"
  by (simp add: PUT_def split: prod.splits)

lemma findByIdAndDelete_absent:
  "id' \<notin> fst ` set db \<Longrightarrow> findByIdAndDelete db id' = db"
  by (induction db) auto

lemma findByIdAndDelete_removes:
  "distinct (map fst db) \<Longrightarrow> id' \<notin> fst ` set (findByIdAndDelete db id')"
  by (induction db) (auto simp: image_iff)

lemma findByIdAndDelete_length:
  "id' \<in> fst ` set db \<Longrightarrow> Suc (length (findByIdAndDelete db id')) = length db"
  by (induction db) auto

subsection \<open>Rounding to a double\<close>

text \<open>
  \<open>floor_log2\<close> is the binary exponent of a positive rational, so the result of
  \<open>round_double\<close> is a multiple of the unit in the last place with a significand of
  at most 53 bits, within half a unit of the argument. Integers of magnitude up to
  \<open>2\<^sup>5\<^sup>3\<close> are doubles, so the sum of integer amounts is exact as long as the
  absolute values of the amounts add up to at most \<open>2\<^sup>5\<^sup>3\<close>.
\<close>

lemma bit_length_nonneg: "0 \<le> bit_length n"
  by (induction n rule: bit_length.induct) (subst bit_length.simps, simp)

lemma bit_length_pos: "0 < n \<Longrightarrow> 0 < bit_length n"
  using bit_length_nonneg [of "n div 2"] by (subst bit_length.simps) simp

lemma bit_length_bounds:
  "0 < n \<Longrightarrow> 2 ^ nat (bit_length n - 1) \<le> n \<and> n < 2 ^ nat (bit_length n)"
proof (induction n rule: bit_length.induct)
  case (1 n)
  show ?case
  proof (cases "n = 1")
    case True
    then show ?thesis
      by (simp add: bit_length.simps [of 1] bit_length.simps [of 0])
  next
    case False
    with 1 have h: "0 < n div 2" by simp
    with 1 have ih: "2 ^ nat (bit_length (n div 2) - 1) \<le> n div 2"
      "n div 2 < 2 ^ nat (bit_length (n div 2))"
      by simp_all
    have b: "bit_length n = 1 + bit_length (n div 2)"
      using 1 by (subst bit_length.simps) simp
    have p: "0 < bit_length (n div 2)"
      using h by (rule bit_length_pos)
    then have e: "nat (bit_length (n div 2)) = Suc (nat (bit_length (n div 2) - 1))"
      by simp
    have "2 * 2 ^ nat (bit_length (n div 2) - 1) \<le> n"
      using ih(1) by linarith
    moreover have "n < 2 * 2 ^ nat (bit_length (n div 2))"
      using ih(2) by linarith
    ultimately show ?thesis
      using p by (simp add: b e nat_add_distrib)
  qed
qed

lemma pow2_pos: "0 < pow2 e"
  by (simp add: pow2_def)

lemma pow2_powi: "pow2 e = 2 powi e"
  unfolding pow2_def power_int_def by (simp only: inverse_eq_divide power_one_over)

lemma pow2_add: "pow2 (a + b) = pow2 a * pow2 b"
  unfolding pow2_powi by (rule power_int_add) simp

lemma pow2_nat: "pow2 (int n) = 2 ^ n"
  by (simp add: pow2_def)

lemma pow2_mono: "a \<le> b \<Longrightarrow> pow2 a \<le> pow2 b"
proof -
  assume "a \<le> b"
  then obtain n where "b = a + int n"
    by (metis zle_iff_zadd)
  then have "pow2 b = pow2 a * 2 ^ n"
    by (simp add: pow2_add pow2_nat)
  moreover have "(1::rat) \<le> 2 ^ n" by simp
  ultimately show ?thesis
    using pow2_pos [of a] by (simp add: mult_le_cancel_left1)
qed

lemma floor_log2_bounds:
  assumes "0 < x"
  shows "pow2 (floor_log2 x) \<le> x \<and> x < pow2 (floor_log2 x + 1)"
proof -
  obtain n d where q: "quotient_of x = (n, d)"
    by (cases "quotient_of x")
  then have d: "0 < d" and x: "x = of_int n / of_int d"
    by (simp_all add: quotient_of_denom_pos quotient_of_div)
  with assms have n: "0 < n"
    by (simp add: zero_less_divide_iff)
  let ?bn = "bit_length n" and ?bd = "bit_length d"
  have bn: "2 ^ nat (?bn - 1) \<le> n" "n < 2 ^ nat ?bn"
    and bd: "2 ^ nat (?bd - 1) \<le> d" "d < 2 ^ nat ?bd"
    using bit_length_bounds [OF n] bit_length_bounds [OF d] by simp_all
  have pn: "0 < ?bn" and pd: "0 < ?bd"
    using n d by (simp_all add: bit_length_pos)
  have rn: "pow2 (?bn - 1) \<le> of_int n" "of_int n < pow2 ?bn"
    and rd: "pow2 (?bd - 1) \<le> of_int d" "of_int d < pow2 ?bd"
  proof -
    have c: "pow2 (int k) = of_int (2 ^ k)" for k
      by (simp add: pow2_nat)
    have "pow2 (?bn - 1) = of_int (2 ^ nat (?bn - 1))" "pow2 ?bn = of_int (2 ^ nat ?bn)"
      "pow2 (?bd - 1) = of_int (2 ^ nat (?bd - 1))" "pow2 ?bd = of_int (2 ^ nat ?bd)"
      using pn pd c [of "nat (?bn - 1)"] c [of "nat ?bn"] c [of "nat (?bd - 1)"] c [of "nat ?bd"]
      by simp_all
    then show "pow2 (?bn - 1) \<le> of_int n" "of_int n < pow2 ?bn"
      "pow2 (?bd - 1) \<le> of_int d" "of_int d < pow2 ?bd"
      using bn bd by (simp_all only: of_int_le_iff of_int_less_iff)
  qed
  have up: "x < pow2 (?bn - ?bd + 1)"
  proof -
    have "of_int n < pow2 (?bn - ?bd + 1) * pow2 (?bd - 1)"
      using rn(2) by (simp flip: pow2_add)
    also have "\<dots> \<le> pow2 (?bn - ?bd + 1) * of_int d"
      using rd(1) pow2_pos by (simp add: mult_left_mono less_imp_le)
    finally show ?thesis
      using d by (simp add: x pos_divide_less_eq)
  qed
  have lo: "pow2 (?bn - ?bd - 1) \<le> x"
  proof -
    have "pow2 (?bn - ?bd - 1) * of_int d \<le> pow2 (?bn - ?bd - 1) * pow2 ?bd"
      using rd(2) pow2_pos by (simp add: mult_left_mono less_imp_le)
    also have "\<dots> = pow2 (?bn - 1)"
      by (simp flip: pow2_add)
    also have "\<dots> \<le> of_int n"
      by (rule rn(1))
    finally show ?thesis
      using d by (simp add: x pos_le_divide_eq)
  qed
  show ?thesis
  proof (cases "pow2 (?bn - ?bd) \<le> x")
    case True
    then show ?thesis
      using up by (simp add: floor_log2_def q)
  next
    case False
    then show ?thesis
      using lo by (simp add: floor_log2_def q)
  qed
qed

lemma round_ties_even_nearest: "\<bar>of_int (round_ties_even x) - x\<bar> \<le> 1 / 2"
proof -
  have "of_int \<lfloor>x\<rfloor> \<le> x" "x < of_int \<lfloor>x\<rfloor> + 1"
    by linarith+
  then show ?thesis
    by (auto simp: round_ties_even_def Let_def)
qed

lemma round_ties_even_int: "round_ties_even (of_int k) = k"
  by (simp add: round_ties_even_def)

lemma floor_log2_int:
  assumes "0 < n" "n \<le> 2 ^ 53"
  shows "0 \<le> floor_log2 (of_int n) \<and> floor_log2 (of_int n) \<le> 53
         \<and> (floor_log2 (of_int n) = 53 \<longrightarrow> n = 2 ^ 53)"
proof -
  let ?f = "floor_log2 (of_int n)"
  have b: "pow2 ?f \<le> of_int n" "of_int n < pow2 (?f + 1)"
    using floor_log2_bounds [of "of_int n"] assms by simp_all
  have lo: "0 \<le> ?f"
  proof (rule ccontr)
    assume "\<not> 0 \<le> ?f"
    then have "pow2 (?f + 1) \<le> pow2 0"
      by (intro pow2_mono) simp
    with b(2) have "(of_int n :: rat) < 1"
      by (simp add: pow2_def)
    with assms show False by simp
  qed
  have p53: "pow2 53 = of_int (2 ^ 53)"
    by (simp add: pow2_def)
  have le: "(of_int n :: rat) \<le> pow2 53"
    unfolding p53 using assms(2) by (simp only: of_int_le_iff)
  have hi: "?f \<le> 53"
  proof (rule ccontr)
    assume "\<not> ?f \<le> 53"
    then have "pow2 54 \<le> pow2 ?f"
      by (intro pow2_mono) simp
    with b(1) le have "pow2 54 \<le> pow2 53"
      by linarith
    then show False by (simp add: pow2_def)
  qed
  have "n = 2 ^ 53" if "?f = 53"
  proof -
    from that b(1) le have "(of_int n :: rat) = pow2 53" by simp
    then have "(of_int n :: rat) = of_int (2 ^ 53)" by (simp only: p53)
    then show ?thesis by (simp only: of_int_eq_iff)
  qed
  with lo hi show ?thesis by blast
qed

lemma round_double_int:
  assumes "\<bar>n\<bar> \<le> 2 ^ 53"
  shows "round_double (of_int n) = Finite (of_int n)"
proof (cases "n = 0")
  case True
  then show ?thesis by (simp add: round_double_def)
next
  case False
  let ?f = "floor_log2 \<bar>of_int n\<bar>"
  have pos: "0 < \<bar>n\<bar>" using False by simp
  have f: "0 \<le> ?f" "?f \<le> 53" "?f = 53 \<longrightarrow> \<bar>n\<bar> = 2 ^ 53"
    using floor_log2_int [OF pos assms] by simp_all
  have e: "max (?f - 52) (- 1074) = ?f - 52"
    using f by simp
  have nz: "(of_int n :: rat) \<noteq> 0"
    using False by simp
  show ?thesis
  proof (cases "?f = 53")
    case True
    with f have n: "\<bar>n\<bar> = 2 ^ 53" by simp
    then have "even n"
      by (metis even_abs_add_iff even_add even_numeral even_power zero_less_numeral)
    then have h: "(of_int n :: rat) / pow2 1 = of_int (n div 2)"
      by (auto simp: pow2_def elim!: evenE)
    have r: "round_ties_even (of_int n / pow2 1) = n div 2"
      by (simp only: h round_ties_even_int)
    have "of_int (n div 2) * pow2 1 = (of_int n :: rat)"
      using h by (simp add: pow2_def)
    then show ?thesis
      unfolding round_double_def e Let_def True using nz r by simp
  next
    case False
    with f have le: "?f - 52 \<le> 0" by simp
    define k where "k = nat (52 - ?f)"
    have p: "pow2 (?f - 52) = 1 / 2 ^ k"
      using le by (cases "?f = 52") (simp_all add: pow2_def k_def)
    have "(of_int n :: rat) / pow2 (?f - 52) = of_int (n * 2 ^ k)"
      by (simp add: p)
    then have r: "round_ties_even (of_int n / pow2 (?f - 52)) = n * 2 ^ k"
      by (simp only: round_ties_even_int)
    have o: "\<not> (971 < ?f - 52 \<or> ?f - 52 = 971 \<and> 2 ^ 53 \<le> \<bar>n * 2 ^ k\<bar>)"
      using f by simp
    have v: "of_int (n * 2 ^ k) * pow2 (?f - 52) = (of_int n :: rat)"
      by (simp add: p)
    have "round_double (of_int n) = Finite (of_int (n * 2 ^ k) * pow2 (?f - 52))"
      unfolding round_double_def e Let_def r by (simp only: nz o if_False)
    then show ?thesis
      by (simp only: v)
  qed
qed

lemma plus_number_int:
  "\<bar>a + b\<bar> \<le> 2 ^ 53 \<Longrightarrow> Finite (of_int a) + Finite (of_int b) = Finite (of_int (a + b))"
  using round_double_int [of "a + b"] by simp

lemma minus_number_int:
  "\<bar>a - b\<bar> \<le> 2 ^ 53 \<Longrightarrow> Finite (of_int a) - Finite (of_int b) = Finite (of_int (a - b))"
  using round_double_int [of "a - b"] by simp

lemma abs_sum_list_le: "\<bar>sum_list xs\<bar> \<le> (\<Sum>x\<leftarrow>xs. \<bar>x :: int\<bar>)"
  by (induction xs) auto

lemma integer_sums_exact:
  assumes "(\<Sum>x\<leftarrow>xs. \<bar>x\<bar>) \<le> 2 ^ 53"
  shows "sum_amounts (map (\<lambda>x. Finite (of_int x)) xs) = Finite (of_int (sum_list xs))"
  using assms
proof (induction xs rule: rev_induct)
  case Nil
  show ?case by (simp add: sum_amounts_def zero_number_def)
next
  case (snoc x xs)
  have "(\<Sum>x\<leftarrow>xs. \<bar>x\<bar>) \<le> (\<Sum>x\<leftarrow>xs @ [x]. \<bar>x\<bar>)"
    by simp
  with snoc have ih: "sum_amounts (map (\<lambda>x. Finite (of_int x)) xs) = Finite (of_int (sum_list xs))"
    by simp
  have "\<bar>sum_list xs + x\<bar> \<le> 2 ^ 53"
    using abs_sum_list_le [of "xs @ [x]"] snoc.prems by simp
  then have s: "Finite (of_int (sum_list xs)) + Finite (of_int x)
                 = Finite (of_int (sum_list (xs @ [x])))"
    using plus_number_int [of "sum_list xs" x] by simp
  show ?case
    unfolding map_append list.map sum_amounts_snoc ih by (rule s)
qed

lemma abs_scaled:
  fixes p :: rat
  assumes "0 < p"
  shows "\<bar>m * p - x\<bar> = \<bar>m - x / p\<bar> * p"
proof -
  have "\<bar>m - x / p\<bar> * p = \<bar>(m - x / p) * p\<bar>"
    using assms by (simp add: abs_mult)
  also have "(m - x / p) * p = m * p - x"
    using assms by (simp add: left_diff_distrib)
  finally show ?thesis by simp
qed

lemma round_double_nearest:
  assumes "x \<noteq> 0" and "round_double x = Finite y"
  shows "\<exists>m. y = of_int m * pow2 (max (floor_log2 \<bar>x\<bar> - 52) (- 1074))
           \<and> \<bar>m\<bar> \<le> 2 ^ 53
           \<and> \<bar>y - x\<bar> \<le> pow2 (max (floor_log2 \<bar>x\<bar> - 52) (- 1074)) / 2"
proof -
  let ?e = "max (floor_log2 \<bar>x\<bar> - 52) (- 1074)"
  let ?m = "round_ties_even (x / pow2 ?e)"
  have p: "0 < pow2 ?e" by (rule pow2_pos)
  have y: "y = of_int ?m * pow2 ?e"
    using assms by (simp add: round_double_def Let_def split: if_splits)
  have near: "\<bar>of_int ?m - x / pow2 ?e\<bar> \<le> 1 / 2"
    by (rule round_ties_even_nearest)
  have "\<bar>y - x\<bar> = \<bar>of_int ?m - x / pow2 ?e\<bar> * pow2 ?e"
    unfolding y using p by (rule abs_scaled)
  also have "\<dots> \<le> 1 / 2 * pow2 ?e"
    using near p by (intro mult_right_mono) simp_all
  finally have err: "\<bar>y - x\<bar> \<le> pow2 ?e / 2" by simp
  have "\<bar>x\<bar> < pow2 (floor_log2 \<bar>x\<bar> + 1)"
    using floor_log2_bounds [of "\<bar>x\<bar>"] assms(1) by simp
  also have "\<dots> \<le> pow2 (?e + 53)"
    by (intro pow2_mono) simp
  also have "\<dots> = pow2 ?e * 2 ^ 53"
    using pow2_nat [of 53] by (simp only: pow2_add) simp
  finally have "\<bar>x / pow2 ?e\<bar> < 2 ^ 53"
    using p by (simp add: pos_divide_less_eq mult.commute)
  with near have "\<bar>(of_int ?m :: rat)\<bar> < 2 ^ 53 + 1"
    by linarith
  then have "(of_int \<bar>?m\<bar> :: rat) < of_int (2 ^ 53 + 1)"
    by simp
  then have "\<bar>?m\<bar> < 2 ^ 53 + 1"
    by (simp only: of_int_less_iff)
  then have "\<bar>?m\<bar> \<le> 2 ^ 53" by simp
  with y err show ?thesis by blast
qed

subsection \<open>Sums of whole amounts\<close>

text \<open>
  A list with whole amounts is summed without rounding, whatever part of it is
  summed and in whatever order: every partial sum is an integer of magnitude at most
  \<open>2\<^sup>5\<^sup>3\<close>. A sum over all transactions splits into the sums over the months,
  so the totals of the monthly buckets add up, again without rounding, to the
  annual totals.
\<close>

lemma whole_units: "whole x \<Longrightarrow> x = Finite (of_int (units x))"
  by (cases x) (simp_all add: whole_def units_def)

lemma whole_magnitude: "whole x \<Longrightarrow> magnitude x = of_int \<bar>units x\<bar>"
  by (cases x) (auto simp: whole_def units_def magnitude_def)

lemma magnitude_nonneg: "0 \<le> magnitude x"
  by (cases x) (simp_all add: magnitude_def)

lemma whole_list_units:
  "list_all whole xs \<Longrightarrow> xs = map (\<lambda>n. Finite (of_int n)) (map units xs)"
  by (induction xs) (simp_all add: whole_units [symmetric])

lemma whole_list_magnitude:
  "list_all whole xs \<Longrightarrow> (\<Sum>x\<leftarrow>xs. magnitude x) = of_int (\<Sum>x\<leftarrow>xs. \<bar>units x\<bar>)"
  by (induction xs) (simp_all add: whole_magnitude)

lemma int_bound:
  assumes "(of_int n :: rat) \<le> 2 ^ 53" shows "n \<le> 2 ^ 53"
proof -
  have "(2::rat) ^ 53 = of_int (2 ^ 53)" by simp
  with assms have "(of_int n :: rat) \<le> of_int (2 ^ 53)" by (simp only:)
  then show ?thesis by (simp only: of_int_le_iff)
qed

lemma whole_sums:
  assumes "list_all whole xs" "(\<Sum>x\<leftarrow>xs. magnitude x) \<le> 2 ^ 53"
  shows "sum_amounts xs = Finite (of_int (\<Sum>x\<leftarrow>xs. units x))"
proof -
  have b: "(\<Sum>n\<leftarrow>map units xs. \<bar>n\<bar>) \<le> 2 ^ 53"
    using assms whole_list_magnitude [of xs] int_bound [of "\<Sum>x\<leftarrow>xs. \<bar>units x\<bar>"]
    by (simp add: comp_def)
  have "sum_amounts (map (\<lambda>n. Finite (of_int n)) (map units xs))
          = Finite (of_int (sum_list (map units xs)))"
    using b by (rule integer_sums_exact)
  then show ?thesis
    using whole_list_units [OF assms(1)] by simp
qed

lemma magnitude_filter_le:
  "(\<Sum>t\<leftarrow>filter P txs. magnitude (amount t)) \<le> (\<Sum>t\<leftarrow>txs. magnitude (amount t))"
  by (induction txs) (simp_all add: magnitude_nonneg add_increasing)

lemma whole_amounts_sum:
  assumes "whole_amounts txs"
  shows "sum_amounts (map amount (filter P txs))
           = Finite (of_int (\<Sum>t\<leftarrow>filter P txs. units (amount t)))"
proof -
  have "list_all whole (map amount (filter P txs))"
    using assms by (simp add: whole_amounts_def list_all_iff)
  moreover have "(\<Sum>x\<leftarrow>map amount (filter P txs). magnitude x) \<le> 2 ^ 53"
    using assms magnitude_filter_le [of P txs] by (simp add: whole_amounts_def comp_def)
  ultimately show ?thesis
    using whole_sums [of "map amount (filter P txs)"] by (simp add: comp_def)
qed

lemma whole_amounts_mset:
  assumes "mset txs = mset txs'" "whole_amounts txs"
  shows "whole_amounts txs'"
proof -
  have "set txs = set txs'" using assms(1) by (rule mset_eq_setD)
  moreover have "mset (map (\<lambda>t. magnitude (amount t)) txs) = mset (map (\<lambda>t. magnitude (amount t)) txs')"
    using assms(1) by (metis mset_map)
  then have "sum_mset (mset (map (\<lambda>t. magnitude (amount t)) txs))
      = sum_mset (mset (map (\<lambda>t. magnitude (amount t)) txs'))"
    by simp
  then have "(\<Sum>t\<leftarrow>txs. magnitude (amount t)) = (\<Sum>t\<leftarrow>txs'. magnitude (amount t))"
    by (simp only: sum_mset_sum_list)
  ultimately show ?thesis
    using assms(2) by (simp add: whole_amounts_def list_all_iff)
qed

lemma whole_amounts_permuted_sum:
  assumes "mset txs = mset txs'" "whole_amounts txs"
  shows "sum_amounts (map amount (filter P txs)) = sum_amounts (map amount (filter P txs'))"
proof -
  have "mset (map (\<lambda>t. units (amount t)) (filter P txs))
      = mset (map (\<lambda>t. units (amount t)) (filter P txs'))"
    using assms(1) by (metis mset_filter mset_map)
  then have "sum_mset (mset (map (\<lambda>t. units (amount t)) (filter P txs)))
      = sum_mset (mset (map (\<lambda>t. units (amount t)) (filter P txs')))"
    by simp
  then have "(\<Sum>t\<leftarrow>filter P txs. units (amount t)) = (\<Sum>t\<leftarrow>filter P txs'. units (amount t))"
    by (simp only: sum_mset_sum_list)
  then show ?thesis
    using whole_amounts_sum [OF assms(2), of P]
      whole_amounts_sum [OF whole_amounts_mset [OF assms], of P] by simp
qed

lemma sum_list_indicator:
  fixes c :: int
  shows "distinct ks \<Longrightarrow> k0 \<in> set ks \<Longrightarrow> (\<Sum>k\<leftarrow>ks. if k0 = k then c else 0) = c"
proof (induction ks)
  case Nil
  then show ?case by simp
next
  case (Cons k ks)
  have z: "(\<Sum>k\<leftarrow>ks. if k0 = k then c else 0) = 0" if "k0 \<notin> set ks" for ks :: "'a list"
    using that by (induction ks) auto
  show ?case
  proof (cases "k0 = k")
    case True
    with Cons.prems have "k0 \<notin> set ks" by simp
    with True z show ?thesis by simp
  next
    case False
    with Cons show ?thesis by simp
  qed
qed

lemma sum_by_key:
  fixes h :: "'t \<Rightarrow> int"
  assumes "distinct ks" "key ` set txs \<subseteq> set ks"
  shows "(\<Sum>k\<leftarrow>ks. \<Sum>t\<leftarrow>filter (\<lambda>t. key t = k) txs. h t) = (\<Sum>t\<leftarrow>txs. h t)"
  using assms(2)
proof (induction txs)
  case Nil
  show ?case by simp
next
  case (Cons t txs)
  have "(\<Sum>k\<leftarrow>ks. \<Sum>u\<leftarrow>filter (\<lambda>u. key u = k) (t # txs). h u)
      = (\<Sum>k\<leftarrow>ks. (if key t = k then h t else 0) + (\<Sum>u\<leftarrow>filter (\<lambda>u. key u = k) txs. h u))"
    by (rule arg_cong [where f = sum_list], rule map_cong) simp_all
  also have "\<dots> = (\<Sum>k\<leftarrow>ks. if key t = k then h t else 0)
                  + (\<Sum>k\<leftarrow>ks. \<Sum>u\<leftarrow>filter (\<lambda>u. key u = k) txs. h u)"
    by (rule sum_list_addf)
  also have "(\<Sum>k\<leftarrow>ks. if key t = k then h t else 0) = h t"
    using assms(1) Cons.prems by (intro sum_list_indicator) auto
  also have "(\<Sum>k\<leftarrow>ks. \<Sum>u\<leftarrow>filter (\<lambda>u. key u = k) txs. h u) = (\<Sum>u\<leftarrow>txs. h u)"
    using Cons by simp
  finally show ?case by simp
qed

lemma units_bound:
  assumes "whole_amounts txs"
  shows "(\<Sum>t\<leftarrow>txs. \<bar>units (amount t)\<bar>) \<le> 2 ^ 53"
proof -
  have "list_all whole (map amount txs)"
    using assms by (simp add: whole_amounts_def list_all_iff)
  then have "(\<Sum>x\<leftarrow>map amount txs. magnitude x) = of_int (\<Sum>x\<leftarrow>map amount txs. \<bar>units x\<bar>)"
    by (rule whole_list_magnitude)
  then have "(of_int (\<Sum>t\<leftarrow>txs. \<bar>units (amount t)\<bar>) :: rat) \<le> 2 ^ 53"
    using assms by (simp add: whole_amounts_def comp_def)
  then show ?thesis by (rule int_bound)
qed

lemma sum_list_filter_if:
  fixes g :: "'t \<Rightarrow> int"
  shows "(\<Sum>t\<leftarrow>filter P xs. g t) = (\<Sum>t\<leftarrow>xs. if P t then g t else 0)"
  by (induction xs) simp_all

lemma abs_signed_sum:
  fixes g :: "'t \<Rightarrow> int"
  shows "\<bar>(\<Sum>t\<leftarrow>filter P xs. g t) - (\<Sum>t\<leftarrow>filter (\<lambda>t. \<not> P t) xs. g t)\<bar> \<le> (\<Sum>t\<leftarrow>xs. \<bar>g t\<bar>)"
  by (induction xs) auto

lemma signed_sum:
  fixes g :: "'t \<Rightarrow> int"
  shows "(\<Sum>t\<leftarrow>filter P xs. g t) - (\<Sum>t\<leftarrow>filter (\<lambda>t. \<not> P t) xs. g t)
           = (\<Sum>t\<leftarrow>xs. if P t then g t else - g t)"
  by (induction xs) auto

lemma whole_amounts_filter: "whole_amounts txs \<Longrightarrow> whole_amounts (filter P txs)"
  using magnitude_filter_le [of P txs] by (simp add: whole_amounts_def list_all_iff)

lemma whole_difference:
  assumes "whole_amounts txs"
  shows "sum_amounts (map amount (filter P txs)) - sum_amounts (map amount (filter (\<lambda>t. \<not> P t) txs))
       = Finite (of_int (\<Sum>t\<leftarrow>txs. if P t then units (amount t) else - units (amount t)))"
proof -
  let ?i = "\<Sum>t\<leftarrow>filter P txs. units (amount t)"
  let ?e = "\<Sum>t\<leftarrow>filter (\<lambda>t. \<not> P t) txs. units (amount t)"
  have "\<bar>?i - ?e\<bar> \<le> (\<Sum>t\<leftarrow>txs. \<bar>units (amount t)\<bar>)"
    by (rule abs_signed_sum)
  also have "\<dots> \<le> 2 ^ 53"
    using assms by (rule units_bound)
  finally have "Finite (of_int ?i) - Finite (of_int ?e) = Finite (of_int (?i - ?e))"
    by (rule minus_number_int)
  then show ?thesis
    by (simp only: whole_amounts_sum [OF assms] signed_sum)
qed

lemma buckets_as_keys:
  assumes "set md = set (calculateMonthlyData txs)"
  shows "map (\<lambda>p. f (snd p)) md = map (\<lambda>k. f (month_bucket k txs)) (map fst md)"
proof -
  have "map (\<lambda>p. f (snd p)) md = map (\<lambda>p. f (month_bucket (fst p) txs)) md"
  proof (rule map_cong)
    fix p assume "p \<in> set md"
    then have "snd p = month_bucket (fst p) txs"
      using bucket_in_monthly [of "fst p" "snd p" txs] assms by simp
    then show "f (snd p) = f (month_bucket (fst p) txs)" by simp
  qed simp
  then show ?thesis by (simp add: comp_def)
qed

lemma bucket_sums_exact:
  fixes h :: "number transaction \<Rightarrow> int"
  assumes w: "whole_amounts txs"
    and md: "mset md = mset (calculateMonthlyData txs)"
    and f: "\<And>k. f (month_bucket k txs) = Finite (of_int (\<Sum>t\<leftarrow>filter (\<lambda>t. monthYear t = k) txs. h t))"
    and h: "\<And>t. \<bar>h t\<bar> \<le> \<bar>units (amount t)\<bar>"
  shows "sum_amounts (map (\<lambda>p. f (snd p)) md) = Finite (of_int (\<Sum>t\<leftarrow>txs. h t))"
proof -
  let ?ks = "map fst md"
  let ?G = "\<lambda>k. \<Sum>t\<leftarrow>filter (\<lambda>t. monthYear t = k) txs. h t"
  have s: "set md = set (calculateMonthlyData txs)"
    using md by (rule mset_eq_setD)
  have "mset ?ks = mset (map fst (calculateMonthlyData txs))"
    using md by (metis mset_map)
  then have d: "distinct ?ks"
    using distinct_calculateMonthlyData [of txs] by (metis mset_eq_imp_distinct_iff)
  have c: "monthYear ` set txs \<subseteq> set ?ks"
    using keys_calculateMonthlyData [of txs] s by simp
  have m: "map (\<lambda>p. f (snd p)) md = map (\<lambda>n. Finite (of_int n)) (map ?G ?ks)"
    by (simp only: buckets_as_keys [OF s] f map_map comp_def)
  have "(\<Sum>n\<leftarrow>map ?G ?ks. \<bar>n\<bar>) = (\<Sum>k\<leftarrow>?ks. \<bar>?G k\<bar>)"
    by (simp add: comp_def)
  also have "\<dots> \<le> (\<Sum>k\<leftarrow>?ks. \<Sum>t\<leftarrow>filter (\<lambda>t. monthYear t = k) txs. \<bar>h t\<bar>)"
  proof (rule sum_list_mono)
    fix k
    show "\<bar>?G k\<bar> \<le> (\<Sum>t\<leftarrow>filter (\<lambda>t. monthYear t = k) txs. \<bar>h t\<bar>)"
      using abs_sum_list_le [of "map h (filter (\<lambda>t. monthYear t = k) txs)"]
      by (simp add: comp_def)
  qed
  also have "\<dots> = (\<Sum>t\<leftarrow>txs. \<bar>h t\<bar>)"
    using d c by (rule sum_by_key)
  also have "\<dots> \<le> (\<Sum>t\<leftarrow>txs. \<bar>units (amount t)\<bar>)"
    by (rule sum_list_mono) (rule h)
  also have "\<dots> \<le> 2 ^ 53"
    using w by (rule units_bound)
  finally have "sum_amounts (map (\<lambda>n. Finite (of_int n)) (map ?G ?ks))
                  = Finite (of_int (sum_list (map ?G ?ks)))"
    by (rule integer_sums_exact)
  moreover have "sum_list (map ?G ?ks) = (\<Sum>t\<leftarrow>txs. h t)"
    using sum_by_key [OF d c, of h] by (simp add: comp_def)
  ultimately show ?thesis
    by (simp only: m)
qed

lemma whole_income_buckets:
  assumes "whole_amounts txs" "mset md = mset (calculateMonthlyData txs)"
  shows "sum_amounts (map (\<lambda>p. income (snd p)) md) = income (calculateAnnualData txs)"
proof -
  let ?h = "\<lambda>t. if type t = ''income'' then units (amount t) else 0"
  have "sum_amounts (map (\<lambda>p. income (snd p)) md) = Finite (of_int (\<Sum>t\<leftarrow>txs. ?h t))"
  proof (rule bucket_sums_exact [OF assms])
    fix k
    have "income (month_bucket k txs)
        = sum_amounts (map amount (filter (\<lambda>t. type t = ''income'') (filter (\<lambda>t. monthYear t = k) txs)))"
      by (simp add: month_bucket_def Let_def)
    also have "\<dots> = Finite (of_int (\<Sum>t\<leftarrow>filter (\<lambda>t. type t = ''income'') (filter (\<lambda>t. monthYear t = k) txs). units (amount t)))"
      by (rule whole_amounts_sum) (rule whole_amounts_filter [OF assms(1)])
    finally show "income (month_bucket k txs)
        = Finite (of_int (\<Sum>t\<leftarrow>filter (\<lambda>t. monthYear t = k) txs. ?h t))"
      by (simp only: sum_list_filter_if)
  next
    fix t show "\<bar>?h t\<bar> \<le> \<bar>units (amount t)\<bar>" by simp
  qed
  moreover have "income (calculateAnnualData txs) = Finite (of_int (\<Sum>t\<leftarrow>txs. ?h t))"
    by (simp only: calculateAnnualData_eq whole_amounts_sum [OF assms(1)] sum_list_filter_if
        totals.simps)
  ultimately show ?thesis by simp
qed

lemma whole_balance_buckets:
  assumes "whole_amounts txs" "mset md = mset (calculateMonthlyData txs)"
  shows "balance (calculateAnnualData txs) = sum_amounts (map (\<lambda>p. balance (snd p)) md)"
proof -
  let ?h = "\<lambda>t. if type t = ''income'' then units (amount t) else - units (amount t)"
  have "sum_amounts (map (\<lambda>p. balance (snd p)) md) = Finite (of_int (\<Sum>t\<leftarrow>txs. ?h t))"
  proof (rule bucket_sums_exact [OF assms])
    fix k
    have "balance (month_bucket k txs)
        = sum_amounts (map amount (filter (\<lambda>t. type t = ''income'') (filter (\<lambda>t. monthYear t = k) txs)))
          - sum_amounts (map amount (filter (\<lambda>t. \<not> type t = ''income'') (filter (\<lambda>t. monthYear t = k) txs)))"
      by (simp add: month_bucket_def Let_def)
    also have "\<dots> = Finite (of_int (\<Sum>t\<leftarrow>filter (\<lambda>t. monthYear t = k) txs. ?h t))"
      by (rule whole_difference) (rule whole_amounts_filter [OF assms(1)])
    finally show "balance (month_bucket k txs)
        = Finite (of_int (\<Sum>t\<leftarrow>filter (\<lambda>t. monthYear t = k) txs. ?h t))" .
  next
    fix t show "\<bar>?h t\<bar> \<le> \<bar>units (amount t)\<bar>" by simp
  qed
  moreover have "balance (calculateAnnualData txs) = Finite (of_int (\<Sum>t\<leftarrow>txs. ?h t))"
    using whole_difference [OF assms(1), of "\<lambda>t. type t = ''income''"]
    by (simp add: calculateAnnualData_eq)
  ultimately show ?thesis by simp
qed

section \<open>The float model on known values\<close>

text \<open>
  The double nearest to \<open>0.1\<close> is \<open>3602879701896397 / 2\<^sup>5\<^sup>5\<close>, and
  \<open>0.1 + 0.2\<close> is \<open>0.30000000000000004\<close>, not the double nearest to \<open>0.3\<close>.
\<close>

lemma double_one_tenth: "round_double (1 / 10) = Finite (3602879701896397 / 2 ^ 55)"
  by code_simp

lemma double_tenth_plus_fifth:
  "round_double (1 / 10) + round_double (2 / 10) = Finite (5404319552844596 / 2 ^ 54)
   \<and> round_double (3 / 10) = Finite (5404319552844595 / 2 ^ 54)"
  by code_simp

text \<open>
  The aggregates of the example of the specification, its amounts being JavaScript
  numbers.
\<close>

lemma whole_example: "whole_amounts whole_transactions"
  by code_simp

lemma annual_example:
  "calculateAnnualData whole_transactions
     = \<lparr>income = Finite 1000, expenses = Finite 250, balance = Finite 750\<rparr>"
  by code_simp

lemma monthly_example:
  "map_of (calculateMonthlyData whole_transactions) ''2024-02'' =
    Some \<lparr>income = Finite 0, expenses = Finite 50, balance = Finite (- 50),
          transactions = drop 2 whole_transactions\<rparr>"
  by code_simp

lemma category_example: "expensesByCategory whole_transactions = [(''food'', Num (Finite 250))]"
  by code_simp

lemma sums_example:
  "Finite 250 + Finite 20 = Finite 270" "Finite 50 + Finite 20 = Finite 70"
  "Finite 250 + Finite 50 = Finite 300"
  by code_simp+

lemma refund_facts:
  "type refund \<noteq> ''income''" "type refund \<noteq> ''expense''" "monthYear refund = ''2024-02''"
  "amount refund = Finite 20"
  by (simp_all add: refund_def monthYear_def)

lemma food_facts:
  "type (expense_in ''food'') \<noteq> ''income''" "type (expense_in ''food'') = ''expense''"
  "category (expense_in ''food'') = ''food''" "''food'' \<notin> set Object_prototype"
  "amount (expense_in ''food'') = Finite 50"
  by (simp_all add: expense_in_def Object_prototype_def)

section \<open>Properties of the aggregation engine\<close>

text \<open>
  C3. The monthly aggregation partitions the transactions by \<open>monthYear\<close>, the
  first seven characters of the date: the keys of the buckets are exactly the keys
  of the transactions, no key has two buckets, and the bucket of a key holds the
  transactions with that key (in list order, each as often as it occurs in the
  list), the sum of the amounts of those of type \<^verbatim>\<open>"income"\<close>, the sum of the
  amounts of the others, and the difference of the two as balance. Sums are
  accumulated in list order with the addition of the amount type.
\<close>

theorem monthly_partition:
  "fst ` set (calculateMonthlyData txs) = monthYear ` set txs
   \<and> distinct (map fst (calculateMonthlyData txs))
   \<and> (\<forall>k b. (k, b) \<in> set (calculateMonthlyData txs) \<longrightarrow>
          transactions b = filter (\<lambda>t. monthYear t = k) txs
          \<and> income b = sum_amounts (map amount (filter (\<lambda>t. type t = ''income'') (transactions b)))
          \<and> expenses b = sum_amounts (map amount (filter (\<lambda>t. type t \<noteq> ''income'') (transactions b)))
          \<and> balance b = income b - expenses b)"
proof (intro conjI allI impI)
  show "fst ` set (calculateMonthlyData txs) = monthYear ` set txs"
    by (rule keys_calculateMonthlyData)
  show "distinct (map fst (calculateMonthlyData txs))"
    by (rule distinct_calculateMonthlyData)
next
  fix k b
  assume "(k, b) \<in> set (calculateMonthlyData txs)"
  then have b: "b = month_bucket k txs"
    by (rule bucket_in_monthly)
  show "transactions b = filter (\<lambda>t. monthYear t = k) txs"
    by (simp add: b month_bucket_def Let_def)
  show "income b = sum_amounts (map amount (filter (\<lambda>t. type t = ''income'') (transactions b)))"
    by (simp add: b month_bucket_def Let_def)
  show "expenses b = sum_amounts (map amount (filter (\<lambda>t. type t \<noteq> ''income'') (transactions b)))"
    by (simp add: b month_bucket_def Let_def)
  show "balance b = income b - expenses b"
    by (simp add: b month_bucket_def Let_def)
qed

theorem monthly_partition_witness:
  "(''2024-02'', \<lparr>income = 0, expenses = 50, balance = - 50,
                  transactions = drop 2 example_transactions\<rparr>)
     \<in> set (calculateMonthlyData example_transactions)
   \<and> transactions \<lparr>income = 0, expenses = 50, balance = - 50,
                  transactions = drop 2 example_transactions\<rparr>
          = filter (\<lambda>t. monthYear t = ''2024-02'') example_transactions
   \<and> expenses \<lparr>income = 0, expenses = 50, balance = - 50,
                  transactions = drop 2 example_transactions\<rparr>
          = sum_amounts (map amount (filter (\<lambda>t. type t \<noteq> ''income'')
              (transactions \<lparr>income = 0, expenses = (50::int), balance = - 50,
                  transactions = drop 2 example_transactions\<rparr>)))"
proof -
  have m: "(''2024-02'', \<lparr>income = 0, expenses = 50, balance = - 50,
                  transactions = drop 2 example_transactions\<rparr>)
     \<in> set (calculateMonthlyData example_transactions)"
    by (simp add: example_transactions_def calculateMonthlyData_def addToMonth_def monthYear_def
        record_transaction_def Let_def)
  from monthly_partition [of example_transactions] m show ?thesis
    by blast
qed

text \<open>
  C5. On the empty list the annual summary is all zero (the balance is computed as
  \<open>0 - 0\<close>, which is \<open>0\<close> for doubles and in exact arithmetic), the monthly
  aggregation has no bucket, and no category has a total.
\<close>

theorem empty_aggregates:
  assumes "(0::'a::{zero,plus,minus}) - 0 = 0"
  shows "calculateAnnualData ([]::'a transaction list) = \<lparr>income = 0, expenses = 0, balance = 0\<rparr>
    \<and> calculateMonthlyData ([]::'a transaction list) = []
    \<and> expensesByCategory [] = []"
  using assms
  by (simp add: calculateAnnualData_def calculateMonthlyData_def expensesByCategory_def
      Object_entries_def)

theorem empty_aggregates_witness:
  "(0::number) - 0 = 0
    \<and> calculateAnnualData ([]::number transaction list) = \<lparr>income = 0, expenses = 0, balance = 0\<rparr>
    \<and> calculateMonthlyData ([]::number transaction list) = []
    \<and> expensesByCategory [] = []"
proof -
  have z: "(0::number) - 0 = 0"
    by (simp add: zero_number_def round_double_def)
  from z empty_aggregates [OF z] show ?thesis by simp
qed

text \<open>
  C2. The category totals do not hold the sum of the expenses of every category
  label. An expense of \<open>50\<close> whose category is \<^verbatim>\<open>"__proto__"\<close> leaves no entry at
  all: the read gives \<^verbatim>\<open>Object.prototype\<close>, the sum is a string, and the
  assignment of a string to \<^verbatim>\<open>__proto__\<close> is ignored. An expense of \<open>50\<close> whose
  category is \<^verbatim>\<open>"constructor"\<close> gives an entry whose value is a string, the text
  of the inherited function followed by the digits of the amount, where the object
  is declared to hold numbers. For both labels the sum of the amounts of the
  expenses with the label is \<open>50\<close>, which is what the entry of an ordinary label
  such as \<^verbatim>\<open>"food"\<close> holds.
\<close>

theorem category_totals_inherited_labels:
  "category_total ''__proto__'' [expense_in ''__proto__''] = Finite 50
   \<and> expensesByCategory [expense_in ''__proto__''] = []
   \<and> category_total ''constructor'' [expense_in ''constructor''] = Finite 50
   \<and> expensesByCategory [expense_in ''constructor''] = [(''constructor'', Text)]
   \<and> expensesByCategory [expense_in ''food''] = [(''food'', Num (Finite 50))]"
  by code_simp

text \<open>
  C10. A transaction whose type is any string other than \<^verbatim>\<open>"income"\<close>, processed
  after the transactions \<open>txs\<close>, leaves the annual income and the income of its
  month unchanged and adds its amount to the annual expenses and to the expenses
  of its month (which start at \<open>0\<close> when the month is new). The category totals
  are unchanged when its type is not \<^verbatim>\<open>"expense"\<close>; when its type is
  \<^verbatim>\<open>"expense"\<close> and its category names no member of \<^verbatim>\<open>Object.prototype\<close>, the
  total of its category becomes the stored total, or \<open>0\<close> when there is none or when
  it is \<open>0\<close> or \<^verbatim>\<open>NaN\<close>, plus its amount.
\<close>

theorem non_income_counts_as_expense:
  fixes t :: "number transaction"
  assumes "type t \<noteq> ''income''"
  shows "income (calculateAnnualData (txs @ [t])) = income (calculateAnnualData txs)
   \<and> expenses (calculateAnnualData (txs @ [t])) = expenses (calculateAnnualData txs) + amount t
   \<and> map_option income (map_of (calculateMonthlyData (txs @ [t])) (monthYear t)) =
       Some (case map_of (calculateMonthlyData txs) (monthYear t) of
               None \<Rightarrow> 0 | Some b \<Rightarrow> income b)
   \<and> map_option expenses (map_of (calculateMonthlyData (txs @ [t])) (monthYear t)) =
       Some ((case map_of (calculateMonthlyData txs) (monthYear t) of
                None \<Rightarrow> 0 | Some b \<Rightarrow> expenses b) + amount t)
   \<and> (type t \<noteq> ''expense'' \<longrightarrow> expensesByCategory (txs @ [t]) = expensesByCategory txs)
   \<and> (type t = ''expense'' \<and> category t \<notin> set Object_prototype \<longrightarrow>
        map_of (expensesByCategory (txs @ [t])) (category t) =
          Some (Num ((case map_of (expensesByCategory txs) (category t) of
                        Some (Num v) \<Rightarrow> if v = 0 \<or> v = NaN then 0 else v
                      | _ \<Rightarrow> 0) + amount t)))"
proof (intro conjI impI)
  show "income (calculateAnnualData (txs @ [t])) = income (calculateAnnualData txs)"
    using assms by (simp add: calculateAnnualData_snoc)
  show "expenses (calculateAnnualData (txs @ [t])) = expenses (calculateAnnualData txs) + amount t"
    using assms by (simp add: calculateAnnualData_snoc)
  show "map_option income (map_of (calculateMonthlyData (txs @ [t])) (monthYear t)) =
       Some (case map_of (calculateMonthlyData txs) (monthYear t) of
               None \<Rightarrow> 0 | Some b \<Rightarrow> income b)"
    using assms
    by (simp add: calculateMonthlyData_snoc map_of_addToMonth record_transaction_def
        empty_bucket_def split: option.splits)
  show "map_option expenses (map_of (calculateMonthlyData (txs @ [t])) (monthYear t)) =
       Some ((case map_of (calculateMonthlyData txs) (monthYear t) of
                None \<Rightarrow> 0 | Some b \<Rightarrow> expenses b) + amount t)"
    using assms
    by (simp add: calculateMonthlyData_snoc map_of_addToMonth record_transaction_def
        empty_bucket_def split: option.splits)
next
  assume "type t \<noteq> ''expense''"
  then show "expensesByCategory (txs @ [t]) = expensesByCategory txs"
    using expensesByCategory_skip [of t txs "[]"] by simp
next
  assume "type t = ''expense'' \<and> category t \<notin> set Object_prototype"
  then show "map_of (expensesByCategory (txs @ [t])) (category t) =
          Some (Num ((case map_of (expensesByCategory txs) (category t) of
                        Some (Num v) \<Rightarrow> if v = 0 \<or> v = NaN then 0 else v
                      | _ \<Rightarrow> 0) + amount t))"
    by (simp add: ordinary_label_step)
qed

theorem non_income_counts_as_expense_witness:
  "type refund \<noteq> ''income''
   \<and> income (calculateAnnualData (whole_transactions @ [refund])) = Finite 1000
   \<and> expenses (calculateAnnualData (whole_transactions @ [refund])) = Finite 270
   \<and> map_option expenses (map_of (calculateMonthlyData (whole_transactions @ [refund])) ''2024-02'')
       = Some (Finite 70)
   \<and> expensesByCategory (whole_transactions @ [refund]) = expensesByCategory whole_transactions
   \<and> type (expense_in ''food'') = ''expense''
   \<and> map_of (expensesByCategory (whole_transactions @ [expense_in ''food''])) ''food''
       = Some (Num (Finite 300))"
proof -
  have 1: "income (calculateAnnualData (whole_transactions @ [refund])) = Finite 1000
   \<and> expenses (calculateAnnualData (whole_transactions @ [refund])) = Finite 270
   \<and> map_option expenses (map_of (calculateMonthlyData (whole_transactions @ [refund])) ''2024-02'')
       = Some (Finite 70)
   \<and> expensesByCategory (whole_transactions @ [refund]) = expensesByCategory whole_transactions"
    using non_income_counts_as_expense [OF refund_facts(1), of whole_transactions]
      refund_facts annual_example monthly_example sums_example
    by simp
  have 2: "map_of (expensesByCategory (whole_transactions @ [expense_in ''food''])) ''food''
       = Some (Num (Finite 300))"
    using non_income_counts_as_expense [OF food_facts(1), of whole_transactions]
      food_facts category_example sums_example
    by (simp add: zero_number_def)
  from 1 2 refund_facts(1) food_facts(2) show ?thesis by simp
qed

text \<open>
  C1, as amended. The annual balance is the sum of the amounts of the incomes minus
  the sum of the amounts of all other transactions, both accumulated in list order
  with the addition of JavaScript numbers. When the list has whole amounts (every
  amount a finite integer, the absolute values of all amounts adding up to at most
  \<open>2\<^sup>5\<^sup>3\<close>), the annual balance is also the sum of the balances of the monthly
  buckets, and the incomes of the monthly buckets add up to the annual income, in
  whatever order the buckets are added (\<open>md\<close> is the list of the buckets in any
  order).
\<close>

theorem annual_balance_whole_amounts:
  fixes txs :: "number transaction list"
  shows "balance (calculateAnnualData txs) =
           sum_amounts (map amount (filter (\<lambda>t. type t = ''income'') txs))
           - sum_amounts (map amount (filter (\<lambda>t. type t \<noteq> ''income'') txs))
       \<and> (whole_amounts txs \<and> mset md = mset (calculateMonthlyData txs) \<longrightarrow>
            balance (calculateAnnualData txs) = sum_amounts (map (\<lambda>p. balance (snd p)) md)
            \<and> sum_amounts (map (\<lambda>p. income (snd p)) md) = income (calculateAnnualData txs))"
proof (intro conjI impI)
  show "balance (calculateAnnualData txs) =
           sum_amounts (map amount (filter (\<lambda>t. type t = ''income'') txs))
           - sum_amounts (map amount (filter (\<lambda>t. type t \<noteq> ''income'') txs))"
    by (simp add: calculateAnnualData_eq)
next
  assume a: "whole_amounts txs \<and> mset md = mset (calculateMonthlyData txs)"
  then show "balance (calculateAnnualData txs) = sum_amounts (map (\<lambda>p. balance (snd p)) md)"
    by (intro whole_balance_buckets) simp_all
  from a show "sum_amounts (map (\<lambda>p. income (snd p)) md) = income (calculateAnnualData txs)"
    by (intro whole_income_buckets) simp_all
qed

theorem annual_balance_whole_amounts_witness:
  "whole_amounts whole_transactions
   \<and> balance (calculateAnnualData whole_transactions) = Finite 750
   \<and> sum_amounts (map (\<lambda>p. balance (snd p)) (calculateMonthlyData whole_transactions)) = Finite 750
   \<and> sum_amounts (map (\<lambda>p. balance (snd p)) (rev (calculateMonthlyData whole_transactions))) = Finite 750
   \<and> sum_amounts (map (\<lambda>p. income (snd p)) (calculateMonthlyData whole_transactions)) = Finite 1000"
proof -
  have b: "balance (calculateAnnualData whole_transactions) = Finite 750"
    and i: "income (calculateAnnualData whole_transactions) = Finite 1000"
    by (simp_all add: annual_example)
  from annual_balance_whole_amounts [of whole_transactions "calculateMonthlyData whole_transactions"]
    whole_example
  have 1: "balance (calculateAnnualData whole_transactions) =
              sum_amounts (map (\<lambda>p. balance (snd p)) (calculateMonthlyData whole_transactions))
            \<and> sum_amounts (map (\<lambda>p. income (snd p)) (calculateMonthlyData whole_transactions)) =
              income (calculateAnnualData whole_transactions)"
    by blast
  from annual_balance_whole_amounts [of whole_transactions "rev (calculateMonthlyData whole_transactions)"]
    whole_example
  have 2: "balance (calculateAnnualData whole_transactions) =
              sum_amounts (map (\<lambda>p. balance (snd p)) (rev (calculateMonthlyData whole_transactions)))"
    by (elim conjE impE) simp_all
  from 1 2 b i whole_example show ?thesis
    by simp
qed

text \<open>
  Without the condition the two equalities between annual and monthly figures
  fail. For incomes of \<open>0.3\<close> in February and \<open>0.2\<close> and \<open>0.1\<close> in January the
  annual balance is \<open>(0.3 + 0.2) + 0.1 = 0.6\<close>, while the buckets hold
  \<open>0.2 + 0.1 = 0.30000000000000004\<close> and \<open>0.3\<close>, which add up to
  \<open>0.6000000000000001\<close> in either order.
\<close>

theorem annual_balance_counterexample:
  "balance (calculateAnnualData two_months)
     \<noteq> sum_amounts (map (\<lambda>p. balance (snd p)) (calculateMonthlyData two_months))
   \<and> balance (calculateAnnualData two_months)
     \<noteq> sum_amounts (map (\<lambda>p. balance (snd p)) (rev (calculateMonthlyData two_months)))
   \<and> sum_amounts (map (\<lambda>p. income (snd p)) (calculateMonthlyData two_months))
     \<noteq> income (calculateAnnualData two_months)"
  by code_simp

text \<open>
  C4, as amended. Two lists with the same transactions in a different order give
  the same month keys. When the list has whole amounts (every amount a finite
  integer, the absolute values of all amounts adding up to at most \<open>2\<^sup>5\<^sup>3\<close>), they
  also give the same income, expenses and balance for every key, and the same annual
  summary.
\<close>

theorem permutation_whole_amounts:
  fixes txs txs' :: "number transaction list"
  assumes "mset txs = mset txs'"
  shows "fst ` set (calculateMonthlyData txs) = fst ` set (calculateMonthlyData txs')
       \<and> (whole_amounts txs \<longrightarrow>
           (\<forall>k b b'. (k, b) \<in> set (calculateMonthlyData txs) \<and> (k, b') \<in> set (calculateMonthlyData txs')
             \<longrightarrow> income b = income b' \<and> expenses b = expenses b' \<and> balance b = balance b')
           \<and> calculateAnnualData txs = calculateAnnualData txs')"
proof (intro conjI allI impI)
  have s: "set txs = set txs'"
    using assms by (rule mset_eq_setD)
  show "fst ` set (calculateMonthlyData txs) = fst ` set (calculateMonthlyData txs')"
    by (simp add: keys_calculateMonthlyData s)
next
  assume w: "whole_amounts txs"
  show "calculateAnnualData txs = calculateAnnualData txs'"
    by (simp add: calculateAnnualData_eq whole_amounts_permuted_sum [OF assms w])
next
  fix k b b'
  assume w: "whole_amounts txs"
  assume "(k, b) \<in> set (calculateMonthlyData txs) \<and> (k, b') \<in> set (calculateMonthlyData txs')"
  then have b: "b = month_bucket k txs" and b': "b' = month_bucket k txs'"
    by (simp_all add: bucket_in_monthly)
  have i: "sum_amounts (map amount (filter (\<lambda>t. type t = ''income'') (filter (\<lambda>t. monthYear t = k) txs)))
         = sum_amounts (map amount (filter (\<lambda>t. type t = ''income'') (filter (\<lambda>t. monthYear t = k) txs')))"
    unfolding filter_filter by (rule whole_amounts_permuted_sum [OF assms w])
  have e: "sum_amounts (map amount (filter (\<lambda>t. type t \<noteq> ''income'') (filter (\<lambda>t. monthYear t = k) txs)))
         = sum_amounts (map amount (filter (\<lambda>t. type t \<noteq> ''income'') (filter (\<lambda>t. monthYear t = k) txs')))"
    unfolding filter_filter by (rule whole_amounts_permuted_sum [OF assms w])
  show "income b = income b'"
    unfolding b b' month_bucket_def Let_def using i by simp
  show "expenses b = expenses b'"
    unfolding b b' month_bucket_def Let_def using e by simp
  show "balance b = balance b'"
    unfolding b b' month_bucket_def Let_def using i e by simp
qed

theorem permutation_whole_amounts_witness:
  "mset whole_transactions = mset (rev whole_transactions)
   \<and> whole_amounts whole_transactions
   \<and> fst ` set (calculateMonthlyData whole_transactions)
       = fst ` set (calculateMonthlyData (rev whole_transactions))
   \<and> calculateAnnualData whole_transactions = calculateAnnualData (rev whole_transactions)"
  using permutation_whole_amounts [of whole_transactions "rev whole_transactions"] whole_example
  by simp

text \<open>
  Without the condition the order matters: \<open>(0.1 + 0.2) + 0.3 = 0.6000000000000001\<close>
  and \<open>(0.3 + 0.2) + 0.1 = 0.6\<close>, so three incomes of one month give different
  incomes for the month and for the year when the list is reversed.
\<close>

theorem permutation_counterexample:
  "mset (rev same_month) = mset same_month
   \<and> income (calculateAnnualData same_month) \<noteq> income (calculateAnnualData (rev same_month))
   \<and> map_option income (map_of (calculateMonthlyData same_month) ''2024-01'')
       \<noteq> map_option income (map_of (calculateMonthlyData (rev same_month)) ''2024-01'')"
  by code_simp

text \<open>
  C6. The chart series is not in the order of the months in every runtime. The
  comparator reads the time of a point from its label, which is the month as the
  runtime's default locale writes it. For an expense of May 2024 followed by one of
  April 2024 the buckets are created in this order; in a French runtime the labels
  are \<^verbatim>\<open>"mai 2024"\<close> and \<^verbatim>\<open>"avr. 2024"\<close>, from which \<^verbatim>\<open>Date\<close> reads the
  same time for both, or no time for one or for both: the comparator gives no
  difference and the series stays in insertion order, May before April, and comes
  out the other way round when the buckets are created the other way round. In an
  English runtime the series of the same buckets is April, May.
\<close>

theorem chart_series_french_locale:
  "map fst (calculateMonthlyData spring) = [''2024-05'', ''2024-04'']
   \<and> map name (monthlyChartData french_toLocaleString year_getTime (calculateMonthlyData spring))
       = [''mai 2024'', ''avr. 2024'']
   \<and> map name (monthlyChartData french_toLocaleString may_getTime (calculateMonthlyData spring))
       = [''mai 2024'', ''avr. 2024'']
   \<and> map name (monthlyChartData french_toLocaleString no_getTime (calculateMonthlyData spring))
       = [''mai 2024'', ''avr. 2024'']
   \<and> map name (monthlyChartData french_toLocaleString year_getTime (calculateMonthlyData (rev spring)))
       = [''avr. 2024'', ''mai 2024'']
   \<and> map name (monthlyChartData english_toLocaleString english_getTime (calculateMonthlyData spring))
       = [''Apr 2024'', ''May 2024'']"
  by (simp add: spring_def calculateMonthlyData_def addToMonth_def monthYear_def
      record_transaction_def Let_def monthlyChartData_def Object_entries_def array_index_def
      digit_def chart_point_def sort_by_def compareByTime_def french_toLocaleString_def
      year_getTime_def may_getTime_def no_getTime_def english_toLocaleString_def
      english_getTime_def)

section \<open>Properties of the transaction service\<close>

text \<open>
  C7, as amended. The create operation has two outcomes: the request is refused,
  nothing is stored and the validation error leaves the handler uncaught, or the
  record is stored and returned with status \<open>200\<close>. It is refused exactly when the
  persistence layer cannot cast a field the schema declares to its declared type.
  The schema declares the type a string and no enum, so whether a request is
  refused does not depend on which string its type is, and a stored record has the
  type of the request as given.
\<close>

theorem create_applies_casts_only:
  "(POST convert newId db body = (db, Thrown ValidationError)
      \<or> (\<exists>doc. POST convert newId db body = (db @ [(newId, doc)], Responded 200 (newId, doc))))
   \<and> (POST convert newId db body = (db, Thrown ValidationError)) =
       (\<exists>path ty v. (path, ty) \<in> set TransactionSchema \<and> body path = Some v
                      \<and> cast convert ty v = None)
   \<and> (snd (POST convert newId db (body(''type'' \<mapsto> JString s))) = Thrown ValidationError) =
       (snd (POST convert newId db (body(''type'' \<mapsto> JString s'))) = Thrown ValidationError)
   \<and> (\<forall>doc status. snd (POST convert newId db (body(''type'' \<mapsto> JString s))) = Responded status (newId, doc)
         \<longrightarrow> status = 200 \<and> doc ''type'' = Some (JString s)
             \<and> fst (POST convert newId db (body(''type'' \<mapsto> JString s))) = db @ [(newId, doc)])"
proof (intro conjI allI impI)
  show "POST convert newId db body = (db, Thrown ValidationError)
      \<or> (\<exists>doc. POST convert newId db body = (db @ [(newId, doc)], Responded 200 (newId, doc)))"
    by (simp add: POST_cases)
  show "(POST convert newId db body = (db, Thrown ValidationError)) =
       (\<exists>path ty v. (path, ty) \<in> set TransactionSchema \<and> body path = Some v
                      \<and> cast convert ty v = None)"
    by (simp add: POST_cases)
  show "(snd (POST convert newId db (body(''type'' \<mapsto> JString s))) = Thrown ValidationError) =
       (snd (POST convert newId db (body(''type'' \<mapsto> JString s'))) = Thrown ValidationError)"
    by (simp only: thrown_iff refused_type_string [where body = body and s = s and convert = convert and s' = s'])
next
  fix doc status
  assume a: "snd (POST convert newId db (body(''type'' \<mapsto> JString s))) = Responded status (newId, doc)"
  let ?b = "body(''type'' \<mapsto> JString s)"
  let ?d = "\<lambda>path. case map_of TransactionSchema path of
                          None \<Rightarrow> None
                        | Some ty \<Rightarrow> (case ?b path of None \<Rightarrow> None | Some v \<Rightarrow> cast convert ty v)"
  have n: "\<not> (\<exists>path ty v. (path, ty) \<in> set TransactionSchema \<and> ?b path = Some v \<and> cast convert ty v = None)"
  proof
    assume "\<exists>path ty v. (path, ty) \<in> set TransactionSchema \<and> ?b path = Some v \<and> cast convert ty v = None"
    then have "POST convert newId db ?b = (db, Thrown ValidationError)"
      by (simp only: POST_cases if_True)
    with a show False by simp
  qed
  then have p: "POST convert newId db ?b = (db @ [(newId, ?d)], Responded 200 (newId, ?d))"
    by (simp only: POST_cases if_False)
  from a have d: "doc = ?d" and st: "status = 200"
    unfolding p by simp_all
  show "status = 200" by (rule st)
  show "doc ''type'' = Some (JString s)"
    by (simp add: d schema_type_path cast_def)
  show "fst (POST convert newId db ?b) = db @ [(newId, doc)]"
    unfolding p d by simp
qed

theorem create_applies_casts_only_witness:
  "(\<exists>doc. POST dates_only ''id1'' [] gift_body = ([] @ [(''id1'', doc)], Responded 200 (''id1'', doc))
      \<and> doc ''type'' = Some (JString ''gift''))
   \<and> snd (POST dates_only ''id1'' [] (gift_body(''type'' \<mapsto> JString ''income''))) \<noteq> Thrown ValidationError
   \<and> POST dates_only ''id1'' [] text_amount_body = ([], Thrown ValidationError)"
proof -
  note t = create_applies_casts_only [where convert = dates_only and newId = "''id1''" and db = "[]"
      and body = gift_body and s = "''gift''" and s' = "''income''"]
  note t1 = t [THEN conjunct1]
  note t2 = t [THEN conjunct2, THEN conjunct1]
  note t3 = t [THEN conjunct2, THEN conjunct2, THEN conjunct1]
  note t4 = t [THEN conjunct2, THEN conjunct2, THEN conjunct2]
  have n: "POST dates_only ''id1'' [] gift_body \<noteq> ([], Thrown ValidationError)"
    using gift_accepted unfolding t2 .
  with t1 obtain doc where
    p: "POST dates_only ''id1'' [] gift_body = ([] @ [(''id1'', doc)], Responded 200 (''id1'', doc))"
    by (elim disjE exE) simp_all
  then have r: "snd (POST dates_only ''id1'' [] (gift_body(''type'' \<mapsto> JString ''gift'')))
                  = Responded 200 (''id1'', doc)"
    by (simp only: gift_type snd_conv)
  from t4 [rule_format, OF r] have "doc ''type'' = Some (JString ''gift'')"
    by (elim conjE)
  with p have 1: "\<exists>doc. POST dates_only ''id1'' [] gift_body = ([] @ [(''id1'', doc)], Responded 200 (''id1'', doc))
      \<and> doc ''type'' = Some (JString ''gift'')"
    by (intro exI conjI)
  have "snd (POST dates_only ''id1'' [] (gift_body(''type'' \<mapsto> JString ''gift''))) \<noteq> Thrown ValidationError"
    by (simp only: r) simp
  then have 2: "snd (POST dates_only ''id1'' [] (gift_body(''type'' \<mapsto> JString ''income''))) \<noteq> Thrown ValidationError"
    unfolding t3 .
  have 3: "POST dates_only ''id1'' [] text_amount_body = ([], Thrown ValidationError)"
    using text_amount_refused
    by (simp only: create_applies_casts_only [where convert = dates_only and newId = "''id1''"
          and db = "[]" and body = text_amount_body and s = "''gift''" and s' = "''income''",
          THEN conjunct2, THEN conjunct1])
  from 1 2 3 show ?thesis by (intro conjI)
qed

text \<open>
  A body whose type is \<^verbatim>\<open>"gift"\<close>, neither \<^verbatim>\<open>"income"\<close> nor \<^verbatim>\<open>"expense"\<close>,
  is not rejected: the record is stored and returned with status \<open>200\<close>. A body
  whose amount is the text \<^verbatim>\<open>"a lot"\<close> is not stored, but the caller gets no
  client error from the handler: the error is thrown, not answered.
\<close>

theorem create_counterexample:
  "gift_body ''type'' = Some (JString ''gift'')
   \<and> (\<exists>doc. POST dates_only ''id1'' [] gift_body = ([(''id1'', doc)], Responded 200 (''id1'', doc))
         \<and> doc ''type'' = Some (JString ''gift''))
   \<and> text_amount_body ''amount'' = Some (JString ''a lot'')
   \<and> POST dates_only ''id1'' [] text_amount_body = ([], Thrown ValidationError)"
proof -
  have g: "gift_body ''type'' = Some (JString ''gift'')"
    by (simp add: gift_body_def)
  have a: "text_amount_body ''amount'' = Some (JString ''a lot'')"
    by (simp add: text_amount_body_def)
  let ?d = "\<lambda>path. case map_of TransactionSchema path of
                          None \<Rightarrow> None
                        | Some ty \<Rightarrow> (case gift_body path of None \<Rightarrow> None
                                       | Some v \<Rightarrow> cast dates_only ty v)"
  have p: "POST dates_only ''id1'' [] gift_body = ([] @ [(''id1'', ?d)], Responded 200 (''id1'', ?d))"
    using gift_accepted by (simp only: POST_cases if_False)
  have "?d ''type'' = Some (JString ''gift'')"
    by (simp add: schema_type_path g cast_def)
  with p have 1: "\<exists>doc. POST dates_only ''id1'' [] gift_body = ([(''id1'', doc)], Responded 200 (''id1'', doc))
         \<and> doc ''type'' = Some (JString ''gift'')"
    by (intro exI [of _ ?d] conjI) simp_all
  have 2: "POST dates_only ''id1'' [] text_amount_body = ([], Thrown ValidationError)"
    using text_amount_refused by (simp only: POST_cases if_True)
  from g 1 a 2 show ?thesis by (intro conjI)
qed

text \<open>
  C8. For an identifier that no record of the store has, replace-by-id responds
  with null and leaves the store as it is; for an identifier of the store it
  responds with the updated record, which is the record the store now holds for the
  identifier and has the fields of the body, and the identifiers of the store are
  unchanged.
\<close>

theorem replace_by_id:
  "(id' \<notin> fst ` set db \<longrightarrow> PUT db id' body = (db, Inr None))
   \<and> (id' \<in> fst ` set db \<longrightarrow>
        (\<exists>d. snd (PUT db id' body) = Inr (Some d)
           \<and> fst d = id'
           \<and> find (\<lambda>x. fst x = id') (fst (PUT db id' body)) = Some d
           \<and> (\<forall>path v. body path = Some v \<longrightarrow> snd d path = Some v)
           \<and> map fst (fst (PUT db id' body)) = map fst db))"
proof (intro conjI impI)
  assume "id' \<notin> fst ` set db"
  then show "PUT db id' body = (db, Inr None)"
    by (simp add: PUT_eq findByIdAndUpdate_absent)
next
  assume "id' \<in> fst ` set db"
  from findByIdAndUpdate_present [OF this, of body] obtain old where
    "find (\<lambda>x. fst x = id') db = Some old"
    and r: "snd (findByIdAndUpdate db id' body) = Some (id', snd old ++ body)"
    and f: "find (\<lambda>x. fst x = id') (fst (findByIdAndUpdate db id' body)) = Some (id', snd old ++ body)"
    by blast
  show "\<exists>d. snd (PUT db id' body) = Inr (Some d)
           \<and> fst d = id'
           \<and> find (\<lambda>x. fst x = id') (fst (PUT db id' body)) = Some d
           \<and> (\<forall>path v. body path = Some v \<longrightarrow> snd d path = Some v)
           \<and> map fst (fst (PUT db id' body)) = map fst db"
    by (rule exI [of _ "(id', snd old ++ body)"])
       (simp add: PUT_eq r f findByIdAndUpdate_ids map_add_def)
qed

theorem replace_by_id_witness:
  "''id9'' \<notin> fst ` set sample_db
   \<and> PUT sample_db ''id9'' gift_body = (sample_db, Inr None)
   \<and> ''id2'' \<in> fst ` set sample_db
   \<and> (\<exists>d. snd (PUT sample_db ''id2'' gift_body) = Inr (Some d)
           \<and> fst d = ''id2''
           \<and> find (\<lambda>x. fst x = ''id2'') (fst (PUT sample_db ''id2'' gift_body)) = Some d
           \<and> map fst (fst (PUT sample_db ''id2'' gift_body)) = map fst sample_db)"
proof -
  have a: "''id9'' \<notin> fst ` set sample_db" and p: "''id2'' \<in> fst ` set sample_db"
    by (simp_all add: sample_db_def)
  from replace_by_id [of "''id9''" sample_db gift_body] a
  have 1: "PUT sample_db ''id9'' gift_body = (sample_db, Inr None)"
    by blast
  from replace_by_id [of "''id2''" sample_db gift_body] p
  have 2: "\<exists>d. snd (PUT sample_db ''id2'' gift_body) = Inr (Some d)
           \<and> fst d = ''id2''
           \<and> find (\<lambda>x. fst x = ''id2'') (fst (PUT sample_db ''id2'' gift_body)) = Some d
           \<and> map fst (fst (PUT sample_db ''id2'' gift_body)) = map fst sample_db"
    by blast
  from a 1 p 2 show ?thesis by (intro conjI)
qed

text \<open>
  C9. Delete-by-id always responds with the confirmation message; for an
  identifier that no record of the store has it leaves the store as it is (and so
  the number of records); and in a store with unique identifiers the identifier is
  gone after the deletion, so deleting it a second time changes nothing more.
\<close>

theorem delete_by_id:
  "snd (DELETE db id') = Inr ''Transaction deleted successfully''
   \<and> (id' \<notin> fst ` set db \<longrightarrow>
        DELETE db id' = (db, Inr ''Transaction deleted successfully'')
        \<and> length (fst (DELETE db id')) = length db)
   \<and> (distinct (map fst db) \<longrightarrow>
        id' \<notin> fst ` set (fst (DELETE db id'))
        \<and> DELETE (fst (DELETE db id')) id'
            = (fst (DELETE db id'), Inr ''Transaction deleted successfully''))"
  by (simp add: DELETE_def findByIdAndDelete_absent findByIdAndDelete_removes)

theorem delete_by_id_witness:
  "''id9'' \<notin> fst ` set sample_db
   \<and> DELETE sample_db ''id9'' = (sample_db, Inr ''Transaction deleted successfully'')
   \<and> distinct (map fst sample_db)
   \<and> DELETE (fst (DELETE sample_db ''id2'')) ''id2''
        = (fst (DELETE sample_db ''id2''), Inr ''Transaction deleted successfully'')
   \<and> length (fst (DELETE sample_db ''id2'')) = 1"
proof -
  have a: "''id9'' \<notin> fst ` set sample_db" and d: "distinct (map fst sample_db)"
    by (simp_all add: sample_db_def)
  have l: "length (fst (DELETE sample_db ''id2'')) = 1"
    by (simp add: DELETE_def sample_db_def)
  from delete_by_id [of sample_db "''id9''"] a
  have 1: "DELETE sample_db ''id9'' = (sample_db, Inr ''Transaction deleted successfully'')"
    by blast
  from delete_by_id [of sample_db "''id2''"] d
  have 2: "DELETE (fst (DELETE sample_db ''id2'')) ''id2''
        = (fst (DELETE sample_db ''id2''), Inr ''Transaction deleted successfully'')"
    by blast
  from a 1 d 2 l show ?thesis by (intro conjI)
qed

end
